theory Spec2Isabelle
  imports Main "HOL-Library.Log_Nat"
begin

section \<open>Python values, exceptions and Decimal\<close>

text \<open>
  A row of \<open>revenue_data\<close> is a \<open>dict[str, Any]\<close>. The values that the model gives a key
  are \<open>None\<close>, a string, or a number (an int that is not a bool, a finite float or a finite
  \<open>Decimal\<close>), the number given by the decimal that \<open>str\<close> writes for it: the model does
  not tell a float from the \<open>Decimal\<close> of its string. Values of other types are not
  modelled.
\<close>

datatype py_value = PyNone | PyStr string | PyNum rat

text \<open>
  The exceptions that leave the royalty manager: its own \<open>RoyaltyCalculationError\<close>, with
  the artist that has no split, \<open>decimal.InvalidOperation\<close>, and the \<open>TypeError\<close> and
  \<open>ValueError\<close> of \<open>int\<close>.
\<close>

datatype py_error = RoyaltyCalculationError py_value | InvalidOperation | TypeError | ValueError

text \<open>
  What \<open>Decimal\<close> and \<open>int\<close> make of a string is the library's parsing; the model takes the
  two parsers as parameters, \<open>None\<close> where the library raises.
\<close>

record builtins =
  decimal_of_str :: "string \<Rightarrow> rat option"
  int_of_str :: "string \<Rightarrow> int option"

text \<open>
  A finite \<open>Decimal\<close> is the rational it denotes; comparison, \<open>min\<close> and \<open>quantize\<close> work
  on the exact value. Under the default context, \<open>+\<close>, \<open>-\<close> and \<open>*\<close> return the exact
  result rounded to 28 significant digits, a tie going to the even digit. NaN, the infinities
  and the exponent limits of the context (\<open>Emax\<close>, \<open>Emin\<close>) are not modelled.
\<close>

type_synonym decimal = rat

text \<open>The integer nearest to a rational, a tie going to the even one.\<close>

definition round_half_even :: "rat \<Rightarrow> int" where
  "round_half_even x =
     (let f = \<lfloor>x\<rfloor>; d = x - of_int f in
      if d < 1 / 2 then f else if 1 / 2 < d then f + 1 else if even f then f else f + 1)"

text \<open>
  The number of decimal digits of a positive integer, and the decimal exponent of a
  positive rational: the \<open>e\<close> with \<open>10 ^ e \<le> x < 10 ^ (e + 1)\<close>.
\<close>

function decimal_digits :: "int \<Rightarrow> int" where
  "decimal_digits p = (if 0 < p then decimal_digits (p div 10) + 1 else 0)"
  by pat_completeness auto
termination
  by (relation "measure nat") auto

declare decimal_digits.simps [simp del]

definition decimal_exponent :: "rat \<Rightarrow> int" where
  "decimal_exponent x =
     (case quotient_of x of (p, q) \<Rightarrow>
        (let d = decimal_digits p - decimal_digits q
         in if 10 powi d \<le> x then d else d - 1))"

text \<open>Rounding to the context's precision: 28 significant digits, half-even.\<close>

definition dec_round :: "rat \<Rightarrow> decimal" where
  "dec_round x =
     (if x = 0 then 0
      else (let ulp = 10 powi (decimal_exponent \<bar>x\<bar> - 27)
            in of_int (round_half_even (x / ulp)) * ulp))"

definition dec_add :: "decimal \<Rightarrow> decimal \<Rightarrow> decimal" where
  "dec_add a b = dec_round (a + b)"

definition dec_sub :: "decimal \<Rightarrow> decimal \<Rightarrow> decimal" where
  "dec_sub a b = dec_round (a - b)"

definition dec_mul :: "decimal \<Rightarrow> decimal \<Rightarrow> decimal" where
  "dec_mul a b = dec_round (a * b)"

text \<open>The nearest multiple of \<open>0.01\<close>, a tie going away from zero (\<open>ROUND_HALF_UP\<close>).\<close>

definition half_up_cents :: "decimal \<Rightarrow> decimal" where
  "half_up_cents x =
     (if 0 \<le> x then of_int \<lfloor>x * 100 + 1 / 2\<rfloor> / 100
      else - (of_int \<lfloor>- x * 100 + 1 / 2\<rfloor> / 100))"

text \<open>
  \<open>x.quantize(Decimal("0.01"), rounding=ROUND_HALF_UP)\<close>. It raises \<open>InvalidOperation\<close>
  when the result would need more than the 28 digits of the context, that is when it
  reaches \<open>10 ^ 26\<close>.
\<close>

definition quantize_half_up :: "decimal \<Rightarrow> py_error + decimal" where
  "quantize_half_up x =
     (if 10 ^ 26 \<le> \<bar>half_up_cents x\<bar> then Inl InvalidOperation else Inr (half_up_cents x))"

text \<open>\<open>Decimal(str(v))\<close>: the string of \<open>None\<close> is not a number.\<close>

definition to_decimal :: "builtins \<Rightarrow> py_value \<Rightarrow> py_error + decimal" where
  "to_decimal py v =
     (case v of
        PyNone \<Rightarrow> Inl InvalidOperation
      | PyStr s \<Rightarrow> (case decimal_of_str py s of None \<Rightarrow> Inl InvalidOperation | Some d \<Rightarrow> Inr d)
      | PyNum d \<Rightarrow> Inr d)"

text \<open>\<open>int(v)\<close>: a number is truncated towards zero.\<close>

definition to_int :: "builtins \<Rightarrow> py_value \<Rightarrow> py_error + int" where
  "to_int py v =
     (case v of
        PyNone \<Rightarrow> Inl TypeError
      | PyStr s \<Rightarrow> (case int_of_str py s of None \<Rightarrow> Inl ValueError | Some n \<Rightarrow> Inr n)
      | PyNum d \<Rightarrow> Inr (if 0 \<le> d then \<lfloor>d\<rfloor> else \<lceil>d\<rceil>))"

text \<open>The truth value of \<open>v\<close> in \<open>if v:\<close>.\<close>

definition truthy :: "py_value \<Rightarrow> bool" where
  "truthy v = (case v of PyNone \<Rightarrow> False | PyStr s \<Rightarrow> s \<noteq> [] | PyNum d \<Rightarrow> d \<noteq> 0)"

section \<open>Royalty manager (agents/royalty\_manager.py)\<close>

text \<open>
  A row is the dict itself; \<open>calculate\<close> reads its keys \<open>artist\<close>, \<open>revenue\<close>,
  \<open>streams\<close> and \<open>track\<close> with \<open>row.get\<close>.
\<close>

type_synonym revenue_row = "string \<rightharpoonup> py_value"

record artist_payout =
  artist :: string
  quarter :: string
  gross_revenue :: decimal
  split_pct :: decimal
  artist_share :: decimal
  advance_deducted :: decimal
  net_payout :: decimal
  tracks_count :: nat
  streams_count :: int

text \<open>The two caches of \<open>RoyaltyManager\<close>: the share table and the advance ledger.\<close>

record royalty_manager =
  splits_cache :: "string \<rightharpoonup> decimal"
  advances_cache :: "string \<rightharpoonup> decimal"

text \<open>
  \<open>cache.get(key)\<close> on a cache, a \<open>dict[str, Decimal]\<close>, with a key that \<open>calculate\<close>
  took from a row: a key that is not a string is not in the cache.
\<close>

definition cache_get :: "(string \<rightharpoonup> decimal) \<Rightarrow> py_value \<Rightarrow> decimal option" where
  "cache_get cache key = (case key of PyStr s \<Rightarrow> cache s | _ \<Rightarrow> None)"

definition apply_split :: "royalty_manager \<Rightarrow> decimal \<Rightarrow> py_value \<Rightarrow> py_error + decimal" where
  "apply_split self revenue a =
     (case cache_get (splits_cache self) a of
        None \<Rightarrow> Inl (RoyaltyCalculationError a)
      | Some pct \<Rightarrow> quantize_half_up (dec_mul revenue pct))"

text \<open>\<open>row.get("artist", "Unknown")\<close>: the default is for an absent key only.\<close>

definition artist_of :: "revenue_row \<Rightarrow> py_value" where
  "artist_of row = (case row ''artist'' of None \<Rightarrow> PyStr ''Unknown'' | Some a \<Rightarrow> a)"

text \<open>
  The test \<open>artist and a != artist\<close> of the grouping loop: the filter is off when the
  argument is \<open>None\<close> or the empty string.
\<close>

definition filtered_out :: "string option \<Rightarrow> py_value \<Rightarrow> bool" where
  "filtered_out flt a = (case flt of None \<Rightarrow> False | Some f \<Rightarrow> f \<noteq> [] \<and> a \<noteq> PyStr f)"

text \<open>
  \<open>by_artist\<close> is a dict, which keeps its keys in insertion order: an association list.
  \<open>by_artist.setdefault(a, []).append(row)\<close>:
\<close>

fun setdefault_append ::
  "(py_value \<times> revenue_row list) list \<Rightarrow> py_value \<Rightarrow> revenue_row
     \<Rightarrow> (py_value \<times> revenue_row list) list"
where
  "setdefault_append [] a row = [(a, [row])]"
| "setdefault_append ((k, rs) # kvs) a row =
     (if k = a then (k, rs @ [row]) # kvs else (k, rs) # setdefault_append kvs a row)"

fun group_rows ::
  "string option \<Rightarrow> revenue_row list \<Rightarrow> (py_value \<times> revenue_row list) list
     \<Rightarrow> (py_value \<times> revenue_row list) list"
where
  "group_rows flt [] by_artist = by_artist"
| "group_rows flt (row # rows) by_artist =
     (let a = artist_of row in
      if filtered_out flt a then group_rows flt rows by_artist
      else group_rows flt rows (setdefault_append by_artist a row))"

text \<open>
  The inner loop over the rows of one artist: gross revenue, streams, distinct tracks.
  \<open>Decimal(str(...))\<close> and \<open>int(...)\<close> may raise, which ends the loop.
\<close>

fun accumulate_rows ::
  "builtins \<Rightarrow> revenue_row list \<Rightarrow> decimal \<Rightarrow> int \<Rightarrow> py_value set
     \<Rightarrow> py_error + decimal \<times> int \<times> py_value set"
where
  "accumulate_rows py [] gross streams tracks = Inr (gross, streams, tracks)"
| "accumulate_rows py (row # rows) gross streams tracks =
     (case to_decimal py (case row ''revenue'' of None \<Rightarrow> PyNum 0 | Some v \<Rightarrow> v) of
        Inl err \<Rightarrow> Inl err
      | Inr amount \<Rightarrow>
          (case to_int py (case row ''streams'' of None \<Rightarrow> PyNum 0 | Some v \<Rightarrow> v) of
             Inl err \<Rightarrow> Inl err
           | Inr n \<Rightarrow>
               accumulate_rows py rows (dec_add gross amount) (streams + n)
                 (case row ''track'' of
                    None \<Rightarrow> tracks
                  | Some track \<Rightarrow> if truthy track then insert track tracks else tracks)))"

text \<open>
  The outcome of a call of \<open>calculate\<close>: the list it returns or the exception that leaves
  it, the artists reported on the warning channel
  (\<open>logger.warning("No split for %s, skipping")\<close>), and the manager after the call.
\<close>

record calculation =
  returned :: "py_error + artist_payout list"
  warnings :: "py_value list"
  manager :: royalty_manager

text \<open>The payouts that the call returns; none when it raises.\<close>

definition payouts :: "calculation \<Rightarrow> artist_payout list" where
  "payouts c = (case returned c of Inl err \<Rightarrow> [] | Inr results \<Rightarrow> results)"

text \<open>
  The artist of a payout is the key of \<open>by_artist\<close>; a payout is built only for a key
  found in the share table, which is a string.
\<close>

definition str_of :: "py_value \<Rightarrow> string" where
  "str_of v = (case v of PyStr s \<Rightarrow> s | _ \<Rightarrow> [])"

text \<open>
  The loop over \<open>by_artist.items()\<close>; \<open>self\<close> is threaded through the iterations. The
  \<open>try\<close> catches \<open>RoyaltyCalculationError\<close> only: any other exception ends the call.
\<close>

fun calculate_loop ::
  "builtins \<Rightarrow> royalty_manager \<Rightarrow> string \<Rightarrow> (py_value \<times> revenue_row list) list
     \<Rightarrow> artist_payout list \<Rightarrow> py_value list \<Rightarrow> calculation"
where
  "calculate_loop py self q [] results warns =
     \<lparr>returned = Inr results, warnings = warns, manager = self\<rparr>"
| "calculate_loop py self q ((artist_name, rows) # items) results warns =
     (case accumulate_rows py rows 0 0 {} of
        Inl err \<Rightarrow> \<lparr>returned = Inl err, warnings = warns, manager = self\<rparr>
      | Inr (gross, streams, tracks) \<Rightarrow>
          (case apply_split self gross artist_name of
             Inl (RoyaltyCalculationError a) \<Rightarrow>
               calculate_loop py self q items results (warns @ [artist_name])
           | Inl err \<Rightarrow> \<lparr>returned = Inl err, warnings = warns, manager = self\<rparr>
           | Inr share \<Rightarrow>
               (let advance = (case cache_get (advances_cache self) artist_name of
                                 None \<Rightarrow> 0 | Some b \<Rightarrow> b);
                    deducted = min advance share;
                    net = dec_sub share deducted
                in calculate_loop py self q items
                     (results @
                      [\<lparr>artist = str_of artist_name, quarter = q, gross_revenue = gross,
                        split_pct = (case cache_get (splits_cache self) artist_name of
                                       None \<Rightarrow> 0 | Some p \<Rightarrow> p),
                        artist_share = share, advance_deducted = deducted, net_payout = net,
                        tracks_count = card tracks, streams_count = streams\<rparr>])
                     warns)))"

definition calculate ::
  "builtins \<Rightarrow> royalty_manager \<Rightarrow> string \<Rightarrow> string option \<Rightarrow> revenue_row list option
     \<Rightarrow> calculation"
where
  "calculate py self q flt revenue_data =
     calculate_loop py self q
       (group_rows flt (case revenue_data of None \<Rightarrow> [] | Some rows \<Rightarrow> rows) []) [] []"

text \<open>
  \<open>reconcile\<close> returns dicts of two shapes, told apart by their \<open>type\<close> key; the
  amounts it renders with \<open>str\<close> are kept as the decimals themselves.
\<close>

datatype discrepancy =
  Missing_actual (discrepancy_artist: string) (discrepancy_quarter: string)
    (calculated_amount: decimal)
| Amount_mismatch (discrepancy_artist: string) (discrepancy_quarter: string)
    (calculated_amount: decimal) (actual_amount: decimal) (difference: decimal)

text \<open>
  The \<open>actual_payouts\<close> dict is the association list of its items, looked up with
  \<open>map_of\<close>; the dict is empty (falsy) exactly when the list is.
\<close>

fun reconcile_loop ::
  "string \<Rightarrow> (string \<times> decimal) list \<Rightarrow> artist_payout list \<Rightarrow> discrepancy list
     \<Rightarrow> discrepancy list"
where
  "reconcile_loop q actual_payouts [] discrepancies = discrepancies"
| "reconcile_loop q actual_payouts (payout # rest) discrepancies =
     (case map_of actual_payouts (artist payout) of
        None \<Rightarrow>
          reconcile_loop q actual_payouts rest
            (discrepancies @ [Missing_actual (artist payout) q (net_payout payout)])
      | Some actual \<Rightarrow>
          if actual \<noteq> net_payout payout
          then reconcile_loop q actual_payouts rest
                 (discrepancies @
                  [Amount_mismatch (artist payout) q (net_payout payout) actual
                     (dec_sub actual (net_payout payout))])
          else reconcile_loop q actual_payouts rest discrepancies)"

definition reconcile ::
  "string \<Rightarrow> artist_payout list option \<Rightarrow> (string \<times> decimal) list option \<Rightarrow> discrepancy list"
where
  "reconcile q calculated actual_payouts =
     (case calculated of
        None \<Rightarrow> []
      | Some calc \<Rightarrow>
          (case actual_payouts of
             None \<Rightarrow> []
           | Some actual \<Rightarrow>
               if calc = [] \<or> actual = [] then [] else reconcile_loop q actual calc []))"

text \<open>
  \<open>set_split\<close> and \<open>set_advance\<close> store \<open>Decimal(str(x))\<close> of their float argument;
  the models take that decimal. Neither raises: the result is always \<open>Inr\<close>.
\<close>

definition set_split :: "royalty_manager \<Rightarrow> string \<Rightarrow> decimal \<Rightarrow> py_error + royalty_manager" where
  "set_split self a pct = Inr (self\<lparr>splits_cache := (splits_cache self)(a \<mapsto> pct)\<rparr>)"

definition set_advance :: "royalty_manager \<Rightarrow> string \<Rightarrow> decimal \<Rightarrow> py_error + royalty_manager" where
  "set_advance self a amount = Inr (self\<lparr>advances_cache := (advances_cache self)(a \<mapsto> amount)\<rparr>)"

section \<open>Python floats\<close>

text \<open>
  The contract manager computes with Python floats (IEEE 754 binary64). A finite float
  is the rational it denotes; comparison and \<open>abs\<close> are exact, and an arithmetic
  operation returns the exact result rounded to the nearest float, a tie going to the
  even significand. NaN, the infinities and overflow are not modelled.
\<close>

type_synonym pyfloat = rat

text \<open>The binary exponent of a positive rational: the \<open>e\<close> with \<open>2 ^ e \<le> x < 2 ^ (e + 1)\<close>.\<close>

definition binary_exponent :: "rat \<Rightarrow> int" where
  "binary_exponent x =
     (case quotient_of x of (p, q) \<Rightarrow>
        (let d = bitlen p - bitlen q in if 2 powi d \<le> x then d else d - 1))"

text \<open>
  Rounding to binary64: 53 significant bits, the unit in the last place never below
  \<open>2 ^ -1074\<close> (the subnormal range).
\<close>

definition round_to_double :: "rat \<Rightarrow> pyfloat" where
  "round_to_double x =
     (if x = 0 then 0
      else (let ulp = 2 powi (max (binary_exponent \<bar>x\<bar> - 52) (- 1074))
            in of_int (round_half_even (x / ulp)) * ulp))"

definition float_sub :: "pyfloat \<Rightarrow> pyfloat \<Rightarrow> pyfloat" where
  "float_sub a b = round_to_double (a - b)"

text \<open>A float literal of the source, such as \<open>0.001\<close>, is the float nearest to the decimal.\<close>

definition float_literal :: "rat \<Rightarrow> pyfloat" where
  "float_literal x = round_to_double x"

section \<open>Contract manager (agents/contract\_manager.py)\<close>

record contract_record =
  c_artist :: string
  c_split_pct :: pyfloat
  signed_date :: "string option"
  expiry_date :: "string option"
  file_path :: "string option"
  file_type :: string
  status :: string
  contract_notes :: string

record audit_entry =
  timestamp :: string
  audit_artist :: string
  old_split :: pyfloat
  new_split :: pyfloat
  reason :: string
  changed_by :: string

text \<open>\<open>name\<close> is the agent's name of \<open>BaseAgent\<close>, written into audit entries.\<close>

record contract_manager =
  name :: string
  contracts :: "contract_record list"
  audit_log :: "audit_entry list"

text \<open>The two messages with which \<open>update_split\<close> raises \<open>ContractError\<close>.\<close>

datatype contract_error =
  ContractError_invalid_split pyfloat
| ContractError_not_found string

text \<open>The dicts returned by \<open>verify_splits\<close>, by their \<open>type\<close> key.\<close>

datatype split_mismatch =
  Missing_in_db (mismatch_artist: string) (contract_split: pyfloat)
| Mismatch (mismatch_artist: string) (contract_split: pyfloat) (db_split: pyfloat)

fun verify_loop ::
  "(string \<rightharpoonup> pyfloat) \<Rightarrow> contract_record list \<Rightarrow> split_mismatch list \<Rightarrow> split_mismatch list"
where
  "verify_loop db_splits [] mismatches = mismatches"
| "verify_loop db_splits (contract # rest) mismatches =
     (case db_splits (c_artist contract) of
        None \<Rightarrow>
          verify_loop db_splits rest
            (mismatches @ [Missing_in_db (c_artist contract) (c_split_pct contract)])
      | Some db_pct \<Rightarrow>
          if \<bar>float_sub db_pct (c_split_pct contract)\<bar> > float_literal (1 / 1000)
          then verify_loop db_splits rest
                 (mismatches @ [Mismatch (c_artist contract) (c_split_pct contract) db_pct])
          else verify_loop db_splits rest mismatches)"

definition verify_splits ::
  "contract_manager \<Rightarrow> (string \<rightharpoonup> pyfloat) option \<Rightarrow> split_mismatch list"
where
  "verify_splits self db_splits =
     verify_loop (case db_splits of None \<Rightarrow> Map.empty | Some m \<Rightarrow> m) (contracts self) []"

text \<open>The search loop of \<open>update_split\<close>: the first contract of the artist.\<close>

fun find_contract :: "contract_record list \<Rightarrow> string \<Rightarrow> contract_record option" where
  "find_contract [] a = None"
| "find_contract (c # cs) a = (if c_artist c = a then Some c else find_contract cs a)"

text \<open>\<open>contract.split_pct = new_pct\<close> on that contract, which is an element of the list.\<close>

fun assign_split :: "contract_record list \<Rightarrow> string \<Rightarrow> pyfloat \<Rightarrow> contract_record list" where
  "assign_split [] a new_pct = []"
| "assign_split (c # cs) a new_pct =
     (if c_artist c = a then c\<lparr>c_split_pct := new_pct\<rparr> # cs else c # assign_split cs a new_pct)"

text \<open>\<open>now\<close> is \<open>datetime.utcnow().isoformat()\<close> at the call.\<close>

definition update_split ::
  "string \<Rightarrow> contract_manager \<Rightarrow> string \<Rightarrow> pyfloat \<Rightarrow> string
     \<Rightarrow> contract_error + (audit_entry \<times> contract_manager)"
where
  "update_split now self a new_pct why =
     (if \<not> (0 \<le> new_pct \<and> new_pct \<le> 1) then Inl (ContractError_invalid_split new_pct)
      else
        (case find_contract (contracts self) a of
           None \<Rightarrow> Inl (ContractError_not_found a)
         | Some contract \<Rightarrow>
             (let entry = \<lparr>timestamp = now, audit_artist = a, old_split = c_split_pct contract,
                           new_split = new_pct, reason = why, changed_by = name self\<rparr>
              in Inr (entry,
                      self\<lparr>contracts := assign_split (contracts self) a new_pct,
                           audit_log := audit_log self @ [entry]\<rparr>))))"

section \<open>Director (agents/director.py)\<close>

record escalation_rule =
  from_agent :: string
  condition :: string
  action :: string

record decision =
  decision_timestamp :: string
  decision_action :: string
  decision_from :: string
  decision_issue :: string
  rule_action :: string

record director =
  escalation_rules :: "escalation_rule list"
  decision_log :: "decision list"

text \<open>The dict returned by \<open>escalate\<close>: its \<open>action\<close> and its \<open>message\<close>.\<close>

record escalation =
  escalation_action :: string
  message :: string

text \<open>Python's \<open>needle in haystack\<close> on strings.\<close>

fun starts_with :: "'a list \<Rightarrow> 'a list \<Rightarrow> bool" where
  "starts_with ys [] = True"
| "starts_with [] (x # xs) = False"
| "starts_with (y # ys) (x # xs) = (x = y \<and> starts_with ys xs)"

fun str_in :: "'a list \<Rightarrow> 'a list \<Rightarrow> bool" where
  "str_in needle [] = (needle = [])"
| "str_in needle (y # ys) = (starts_with (y # ys) needle \<or> str_in needle ys)"

text \<open>
  \<open>str.lower\<close> is Unicode's lower-casing; \<open>escalate\<close> takes it as the parameter
  \<open>lower\<close>, and \<open>now\<close> is \<open>datetime.utcnow().isoformat()\<close> at the call. On ASCII
  strings \<open>lower\<close> is \<open>ascii_lower\<close>.
\<close>

definition ascii_lower :: "string \<Rightarrow> string" where
  "ascii_lower s =
     map (\<lambda>c. if 65 \<le> (of_char c :: nat) \<and> (of_char c :: nat) \<le> 90
              then char_of (of_char c + 32 :: nat) else c) s"

fun escalate_loop ::
  "(string \<Rightarrow> string) \<Rightarrow> string \<Rightarrow> director \<Rightarrow> escalation_rule list \<Rightarrow> string \<Rightarrow> string
     \<Rightarrow> escalation \<times> director"
where
  "escalate_loop lower now self [] issue agent =
     (\<lparr>escalation_action = ''notify_admin'',
       message = ''Unmatched escalation from '' @ agent @ '': '' @ issue\<rparr>, self)"
| "escalate_loop lower now self (rule # rules) issue agent =
     (if from_agent rule = agent \<and> str_in (condition rule) (lower issue)
      then (\<lparr>escalation_action = action rule,
              message = ''Escalation from '' @ agent @ '': '' @ issue\<rparr>,
            self\<lparr>decision_log := decision_log self @
              [\<lparr>decision_timestamp = now, decision_action = ''escalation'',
                decision_from = agent, decision_issue = take 120 issue,
                rule_action = action rule\<rparr>]\<rparr>)
      else escalate_loop lower now self rules issue agent)"

definition escalate ::
  "(string \<Rightarrow> string) \<Rightarrow> string \<Rightarrow> director \<Rightarrow> string \<Rightarrow> string \<Rightarrow> escalation \<times> director"
where
  "escalate lower now self issue agent =
     escalate_loop lower now self (escalation_rules self) issue agent"

section \<open>Auxiliary notions of the proofs\<close>

text \<open>
  One iteration of the loop of \<open>calculate\<close> on an entry of \<open>by_artist\<close>: the exception
  that ends the call, or the payout that is appended, if one is (\<open>None\<close> when the artist
  is skipped). It is used to describe the result of the loop; the loop itself is
  \<open>calculate_loop\<close>.
\<close>

definition iteration ::
  "builtins \<Rightarrow> royalty_manager \<Rightarrow> string \<Rightarrow> py_value \<times> revenue_row list
     \<Rightarrow> py_error + artist_payout option"
where
  "iteration py self q item =
     (case item of (k, rs) \<Rightarrow>
       (case accumulate_rows py rs 0 0 {} of
          Inl err \<Rightarrow> Inl err
        | Inr (gross, streams, tracks) \<Rightarrow>
            (case cache_get (splits_cache self) k of
               None \<Rightarrow> Inr None
             | Some pct \<Rightarrow>
                 (case quantize_half_up (dec_mul gross pct) of
                    Inl err \<Rightarrow> Inl err
                  | Inr share \<Rightarrow>
                      Inr (Some \<lparr>artist = str_of k, quarter = q, gross_revenue = gross,
                        split_pct = pct, artist_share = share,
                        advance_deducted =
                          min (case cache_get (advances_cache self) k of None \<Rightarrow> 0 | Some b \<Rightarrow> b)
                              share,
                        net_payout = dec_sub share
                          (min (case cache_get (advances_cache self) k of None \<Rightarrow> 0 | Some b \<Rightarrow> b)
                               share),
                        tracks_count = card tracks, streams_count = streams\<rparr>)))))"

definition payout_of ::
  "builtins \<Rightarrow> royalty_manager \<Rightarrow> string \<Rightarrow> py_value \<times> revenue_row list
     \<Rightarrow> artist_payout option"
where
  "payout_of py self q item =
     (case iteration py self q item of Inl err \<Rightarrow> None | Inr appended \<Rightarrow> appended)"

text \<open>
  The inputs at which the theorems are instantiated: parsers that know two strings, a share
  table and an advance ledger with two artists, and a revenue feed with a row that has no
  artist key.
\<close>

definition scenario_builtins :: builtins where
  "scenario_builtins =
     \<lparr>decimal_of_str = map_of [(''500.00'', 500)], int_of_str = map_of [(''40'', 40)]\<rparr>"

definition scenario_manager :: royalty_manager where
  "scenario_manager =
     \<lparr>splits_cache = [''Alice'' \<mapsto> 7 / 10, ''Bob'' \<mapsto> 4 / 5],
      advances_cache = [''Alice'' \<mapsto> 7500, ''Bob'' \<mapsto> 100]\<rparr>"

definition scenario_rows :: "revenue_row list" where
  "scenario_rows =
     [[''artist'' \<mapsto> PyStr ''Alice'', ''revenue'' \<mapsto> PyNum 6000, ''streams'' \<mapsto> PyNum 1200,
       ''track'' \<mapsto> PyStr ''t1''],
      [''artist'' \<mapsto> PyStr ''Bob'', ''revenue'' \<mapsto> PyStr ''500.00'', ''streams'' \<mapsto> PyStr ''40'',
       ''track'' \<mapsto> PyStr ''t7''],
      [''revenue'' \<mapsto> PyNum 25],
      [''artist'' \<mapsto> PyStr ''Alice'', ''revenue'' \<mapsto> PyNum 4000, ''streams'' \<mapsto> PyNum 800,
       ''track'' \<mapsto> PyStr ''t2'']]"

text \<open>
  A contract registry with two artists, and the director with the escalation rules that
  \<open>__post_init__\<close> installs.
\<close>

definition scenario_contracts :: contract_manager where
  "scenario_contracts =
     \<lparr>name = ''Max'',
      contracts =
        [\<lparr>c_artist = ''Alice'', c_split_pct = float_literal (13 / 20), signed_date = Some ''2024-01-15'',
          expiry_date = None, file_path = None, file_type = ''pdf'', status = ''active'',
          contract_notes = ''''\<rparr>,
         \<lparr>c_artist = ''Bob'', c_split_pct = float_literal (4 / 5), signed_date = None,
          expiry_date = None, file_path = None, file_type = ''pdf'', status = ''active'',
          contract_notes = ''''\<rparr>],
      audit_log = []\<rparr>"

definition default_director :: director where
  "default_director =
     \<lparr>escalation_rules =
        [\<lparr>from_agent = ''ROYALTY-ENGINE'', condition = ''error_in_calculation'', action = ''notify_admin''\<rparr>,
         \<lparr>from_agent = ''CONTRACT-MGR'', condition = ''split_mismatch'', action = ''block''\<rparr>,
         \<lparr>from_agent = ''DEVOPS-BOT'', condition = ''deploy_failed'', action = ''notify_admin''\<rparr>],
      decision_log = []\<rparr>"


section \<open>Rounding to the precision of the context\<close>

lemma decimal_digits_nonpos: "p \<le> 0 \<Longrightarrow> decimal_digits p = 0"
  by (subst decimal_digits.simps) simp

lemma decimal_digits_pos: "0 < p \<Longrightarrow> 0 < decimal_digits p"
proof (induction p rule: decimal_digits.induct)
  case (1 p)
  show ?case
  proof (cases "0 < p div 10")
    case True
    with 1 show ?thesis by (subst decimal_digits.simps) simp
  next
    case False
    then have "decimal_digits (p div 10) = 0" by (subst decimal_digits.simps) simp
    with 1 show ?thesis by (subst decimal_digits.simps) simp
  qed
qed

lemma decimal_digits_bounds:
  "0 < p \<Longrightarrow> 10 ^ nat (decimal_digits p - 1) \<le> p \<and> p < 10 ^ nat (decimal_digits p)"
proof (induction p rule: decimal_digits.induct)
  case (1 p)
  have d: "decimal_digits p = decimal_digits (p div 10) + 1"
    using 1(2) by (subst decimal_digits.simps) simp
  show ?case
  proof (cases "0 < p div 10")
    case False
    then have z: "decimal_digits (p div 10) = 0" by (subst decimal_digits.simps) simp
    from False 1(2) have "p < 10" by simp
    with 1(2) show ?thesis by (simp add: d z decimal_digits_nonpos)
  next
    case True
    from 1(1) [OF 1(2) True]
    have l: "10 ^ nat (decimal_digits (p div 10) - 1) \<le> p div 10"
      and u: "p div 10 < 10 ^ nat (decimal_digits (p div 10))" by simp_all
    from decimal_digits_pos [OF True]
    have n: "nat (decimal_digits (p div 10)) = Suc (nat (decimal_digits (p div 10) - 1))" by simp
    have "10 * (p div 10) \<le> p" by simp
    with l have "10 * 10 ^ nat (decimal_digits (p div 10) - 1) \<le> p" by linarith
    then have 1: "10 ^ nat (decimal_digits p - 1) \<le> p" by (simp add: d n)
    have "p < 10 * (p div 10 + 1)" by simp
    also from u have "10 * (p div 10 + 1) \<le> 10 * 10 ^ nat (decimal_digits (p div 10))" by simp
    finally have "p < 10 ^ nat (decimal_digits p)"
      using decimal_digits_pos [OF True] by (simp add: d nat_add_distrib)
    with 1 show ?thesis by simp
  qed
qed

lemma decimal_digits_powi_bounds:
  assumes "0 < p"
  shows "(10::rat) powi (decimal_digits p - 1) \<le> of_int p" and "of_int p < (10::rat) powi (decimal_digits p)"
proof -
  from decimal_digits_bounds [OF assms]
  have l: "10 ^ nat (decimal_digits p - 1) \<le> p" and u: "p < 10 ^ nat (decimal_digits p)" by simp_all
  have b: "1 \<le> decimal_digits p" using decimal_digits_pos [OF assms] by simp
  from l have "(of_int (10 ^ nat (decimal_digits p - 1)) :: rat) \<le> of_int p"
    by (simp only: of_int_le_iff)
  then show "(10::rat) powi (decimal_digits p - 1) \<le> of_int p"
    using b by (simp add: power_int_def)
  from u have "(of_int p :: rat) < of_int (10 ^ nat (decimal_digits p))"
    by (simp only: of_int_less_iff)
  then show "of_int p < (10::rat) powi (decimal_digits p)"
    using b by (simp add: power_int_def)
qed

lemma decimal_exponent_bounds:
  assumes "0 < x"
  shows "10 powi (decimal_exponent x) \<le> x" and "x < 10 powi (decimal_exponent x + 1)"
proof -
  obtain p q where pq: "quotient_of x = (p, q)" by (cases "quotient_of x")
  then have q: "0 < q" and x: "x = of_int p / of_int q"
    by (simp_all add: quotient_of_denom_pos quotient_of_div)
  with assms have p: "0 < p" by (simp add: zero_less_divide_iff)
  define d where "d = decimal_digits p - decimal_digits q"
  note bp = decimal_digits_powi_bounds [OF p] and bq = decimal_digits_powi_bounds [OF q]
  have qpos: "(0::rat) < of_int q" using q by simp
  have up: "x < 10 powi (d + 1)"
  proof -
    have "of_int p < (10::rat) powi (d + 1) * 10 powi (decimal_digits q - 1)"
      using bp(2) by (simp add: d_def flip: power_int_add)
    also have "\<dots> \<le> 10 powi (d + 1) * of_int q"
      using bq(1) by (simp add: mult_left_mono)
    finally show ?thesis using qpos by (simp add: x pos_divide_less_eq)
  qed
  have lo: "10 powi (d - 1) < x"
  proof -
    have "(10::rat) powi (d - 1) * of_int q < 10 powi (d - 1) * 10 powi (decimal_digits q)"
      using bq(2) by (simp add: mult_strict_left_mono)
    also have "\<dots> = 10 powi (decimal_digits p - 1)"
      by (simp add: d_def flip: power_int_add)
    also have "\<dots> \<le> of_int p" by (rule bp(1))
    finally show ?thesis using qpos by (simp add: x pos_less_divide_eq)
  qed
  have e: "decimal_exponent x = (if 10 powi d \<le> x then d else d - 1)"
    by (simp add: decimal_exponent_def pq d_def Let_def)
  show "10 powi (decimal_exponent x) \<le> x"
    using lo by (simp add: e)
  show "x < 10 powi (decimal_exponent x + 1)"
    using up by (simp add: e not_le)
qed

lemma round_half_even_of_int: "round_half_even (of_int m) = m"
  by (simp add: round_half_even_def)

lemma powi10_split:
  assumes "j \<le> k"
  shows "(10::rat) powi k = of_int (10 ^ nat (k - j)) * 10 powi j"
proof -
  have "(10::rat) powi k = 10 powi ((k - j) + j)" by simp
  also have "\<dots> = 10 powi (k - j) * 10 powi j" by (rule power_int_add) simp
  also have "(10::rat) powi (k - j) = of_int (10 ^ nat (k - j))"
    using assms by (simp add: power_int_def)
  finally show ?thesis .
qed

lemma dec_round_exact:
  assumes "\<bar>n\<bar> < 10 ^ 28"
  shows "dec_round (of_int n * 10 powi k) = of_int n * 10 powi k"
proof (cases "n = 0")
  case True
  then show ?thesis by (simp add: dec_round_def)
next
  case False
  define x :: rat where "x = of_int n * 10 powi k"
  have nz: "x \<noteq> 0" using False by (simp add: x_def)
  then have xpos: "0 < \<bar>x\<bar>" by simp
  define e where "e = decimal_exponent \<bar>x\<bar>"
  define u :: rat where "u = 10 powi (e - 27)"
  have upos: "0 < u" by (simp add: u_def)
  have "10 powi e \<le> \<bar>x\<bar>" using decimal_exponent_bounds(1) [OF xpos] by (simp add: e_def)
  also have "\<bar>x\<bar> = of_int \<bar>n\<bar> * 10 powi k" by (simp add: x_def abs_mult)
  also have "\<dots> < of_int (10 ^ 28) * 10 powi k"
  proof -
    have "(of_int \<bar>n\<bar> :: rat) < of_int (10 ^ 28)" using assms by (simp only: of_int_less_iff)
    moreover have "(0::rat) < 10 powi k" by simp
    ultimately show ?thesis by (rule mult_strict_right_mono)
  qed
  also have "\<dots> = 10 powi (28 + k)" by (subst power_int_add) simp_all
  finally have "(10::rat) powi e < 10 powi (28 + k)" .
  then have "e < 28 + k"
    using power_int_increasing [of "28 + k" e "10::rat"] by (cases "e < 28 + k") auto
  then have "e - 27 \<le> k" by simp
  from powi10_split [OF this]
  have "x = of_int (n * 10 ^ nat (k - (e - 27))) * u" by (simp add: x_def u_def)
  then have "x / u = of_int (n * 10 ^ nat (k - (e - 27)))" and xu: "x = of_int (n * 10 ^ nat (k - (e - 27))) * u"
    using upos by simp_all
  then have "round_half_even (x / u) = n * 10 ^ nat (k - (e - 27))"
    by (simp only: round_half_even_of_int)
  then have "of_int (round_half_even (x / u)) * u = x" using xu by simp
  moreover have "dec_round x = of_int (round_half_even (x / u)) * u"
    using nz by (simp add: dec_round_def Let_def e_def u_def)
  ultimately show ?thesis by (simp add: x_def)
qed

section \<open>The loops of calculate\<close>

lemma keys_setdefault_append:
  "map fst (setdefault_append kvs a r) =
     (if a \<in> set (map fst kvs) then map fst kvs else map fst kvs @ [a])"
  by (induction kvs a r rule: setdefault_append.induct) auto

lemma map_of_setdefault_append:
  "map_of (setdefault_append kvs a r) =
     (map_of kvs)(a \<mapsto> (case map_of kvs a of None \<Rightarrow> [r] | Some rs \<Rightarrow> rs @ [r]))"
  by (induction kvs a r rule: setdefault_append.induct) (auto simp: fun_eq_iff)

lemma distinct_setdefault_append:
  "distinct (map fst kvs) \<Longrightarrow> distinct (map fst (setdefault_append kvs a r))"
  by (simp add: keys_setdefault_append)

lemma set_keys_setdefault_append:
  "fst ` set (setdefault_append kvs a r) = insert a (fst ` set kvs)"
  by (induction kvs a r rule: setdefault_append.induct) auto

lemma keys_group_rows:
  "fst ` set (group_rows flt rows acc) =
     fst ` set acc \<union> {a. \<exists>r \<in> set rows. artist_of r = a \<and> \<not> filtered_out flt a}"
proof (induction rows arbitrary: acc)
  case Nil
  then show ?case by simp
next
  case (Cons row rows)
  show ?case
  proof (cases "filtered_out flt (artist_of row)")
    case True
    then show ?thesis using Cons.IH [of acc] by (auto simp: Let_def)
  next
    case False
    then show ?thesis
      using Cons.IH [of "setdefault_append acc (artist_of row) row"]
      by (auto simp: Let_def set_keys_setdefault_append)
  qed
qed

lemma distinct_group_rows:
  "distinct (map fst acc) \<Longrightarrow> distinct (map fst (group_rows flt rows acc))"
  by (induction rows arbitrary: acc) (auto simp: Let_def distinct_setdefault_append)

lemma map_of_group_rows:
  "map_of (group_rows flt rows acc) a =
     (let new = filter (\<lambda>r. artist_of r = a \<and> \<not> filtered_out flt a) rows in
      case map_of acc a of
        None \<Rightarrow> if new = [] then None else Some new
      | Some rs \<Rightarrow> Some (rs @ new))"
  by (induction rows arbitrary: acc)
     (auto simp: Let_def map_of_setdefault_append split: option.splits)

lemma group_rows_entry:
  assumes "(k, rs) \<in> set (group_rows flt rows [])"
  shows "rs = filter (\<lambda>r. artist_of r = k) rows" and "\<not> filtered_out flt k"
    and "\<exists>row \<in> set rows. artist_of row = k"
proof -
  have "distinct (map fst (group_rows flt rows []))"
    by (rule distinct_group_rows) simp
  with assms have m: "map_of (group_rows flt rows []) k = Some rs" by simp
  have "k \<in> fst ` set (group_rows flt rows [])" using assms by force
  then have k: "\<exists>row \<in> set rows. artist_of row = k \<and> \<not> filtered_out flt k"
    by (simp add: keys_group_rows)
  then show "\<not> filtered_out flt k" and "\<exists>row \<in> set rows. artist_of row = k" by blast+
  with m show "rs = filter (\<lambda>r. artist_of r = k) rows"
    by (simp add: map_of_group_rows Let_def split: if_splits)
qed

lemma quantize_not_missing_split: "quantize_half_up x \<noteq> Inl (RoyaltyCalculationError a)"
  by (simp add: quantize_half_up_def)

lemma calculate_loop_step:
  "calculate_loop py self q (item # items) results warns =
     (case iteration py self q item of
        Inl err \<Rightarrow> \<lparr>returned = Inl err, warnings = warns, manager = self\<rparr>
      | Inr None \<Rightarrow> calculate_loop py self q items results (warns @ [fst item])
      | Inr (Some p) \<Rightarrow> calculate_loop py self q items (results @ [p]) warns)"
proof -
  obtain k rs where item: "item = (k, rs)" by (cases item)
  show ?thesis
  proof (cases "accumulate_rows py rs 0 0 {}")
    case (Inl err)
    then show ?thesis by (simp add: item iteration_def)
  next
    case (Inr acc)
    obtain gross streams tracks where acc: "acc = (gross, streams, tracks)" by (cases acc)
    show ?thesis
    proof (cases "cache_get (splits_cache self) k")
      case None
      with Inr acc show ?thesis by (simp add: item iteration_def apply_split_def)
    next
      case (Some pct)
      show ?thesis
      proof (cases "quantize_half_up (dec_mul gross pct)")
        case (Inl err)
        then have "err = InvalidOperation" by (simp add: quantize_half_up_def split: if_splits)
        with Inl Inr acc Some show ?thesis by (simp add: item iteration_def apply_split_def)
      next
        case share: (Inr share)
        with Inr acc Some show ?thesis
          by (simp add: item iteration_def apply_split_def Let_def)
      qed
    qed
  qed
qed

lemma calculate_loop_manager:
  "manager (calculate_loop py self q items results warns) = self"
proof (induction items arbitrary: results warns)
  case Nil
  then show ?case by simp
next
  case (Cons item items)
  show ?case
    unfolding calculate_loop_step
    by (cases "iteration py self q item") (simp_all add: Cons.IH split: option.split)
qed

lemma calculate_loop_raises:
  assumes "\<exists>item \<in> set items. isl (iteration py self q item)"
  shows "isl (returned (calculate_loop py self q items results warns))"
  using assms
proof (induction items arbitrary: results warns)
  case Nil
  then show ?case by simp
next
  case (Cons item items)
  show ?case
  proof (cases "iteration py self q item")
    case (Inl err)
    then show ?thesis by (simp add: calculate_loop_step)
  next
    case (Inr appended)
    with Cons.prems have "\<exists>item \<in> set items. isl (iteration py self q item)" by auto
    from Cons.IH [OF this] Inr show ?thesis
      by (simp add: calculate_loop_step split: option.split)
  qed
qed

lemma calculate_loop_returns_both:
  assumes "\<forall>item \<in> set items. \<not> isl (iteration py self q item)"
  shows "returned (calculate_loop py self q items results warns) =
           Inr (results @ List.map_filter (payout_of py self q) items)
       \<and> warnings (calculate_loop py self q items results warns) =
           warns @ filter (\<lambda>k. cache_get (splits_cache self) k = None) (map fst items)"
  using assms
proof (induction items arbitrary: results warns)
  case Nil
  show ?case by simp
next
  case (Cons item items)
  from Cons.prems have rest: "\<forall>item \<in> set items. \<not> isl (iteration py self q item)"
    and this_one: "\<not> isl (iteration py self q item)" by simp_all
  then obtain appended where a: "iteration py self q item = Inr appended"
    by (cases "iteration py self q item") simp_all
  have s: "appended = None \<longleftrightarrow> cache_get (splits_cache self) (fst item) = None"
    using a by (auto simp: iteration_def split: prod.splits sum.splits option.splits)
  show ?case
    using a s Cons.IH [OF rest]
    by (cases appended) (simp_all add: calculate_loop_step payout_of_def)
qed

lemmas calculate_loop_returns =
  calculate_loop_returns_both [THEN conjunct1] calculate_loop_returns_both [THEN conjunct2]

lemma calculate_returns_iff:
  "(\<exists>ps. returned (calculate_loop py self q items results warns) = Inr ps) \<longleftrightarrow>
     (\<forall>item \<in> set items. \<not> isl (iteration py self q item))"
proof
  assume "\<exists>ps. returned (calculate_loop py self q items results warns) = Inr ps"
  then have "\<not> isl (returned (calculate_loop py self q items results warns))" by auto
  then show "\<forall>item \<in> set items. \<not> isl (iteration py self q item)"
    using calculate_loop_raises [of items py self q results warns] by blast
next
  assume "\<forall>item \<in> set items. \<not> isl (iteration py self q item)"
  from calculate_loop_returns(1) [OF this]
  show "\<exists>ps. returned (calculate_loop py self q items results warns) = Inr ps" by blast
qed

lemma in_set_map_filter:
  "y \<in> set (List.map_filter f xs) \<longleftrightarrow> (\<exists>x \<in> set xs. f x = Some y)"
  by (induction xs) (auto split: option.splits)

lemma payout_of_Some:
  assumes "payout_of py self q (k, rs) = Some p"
  shows "k = PyStr (artist p)"
    and "net_payout p = dec_sub (artist_share p) (advance_deducted p)"
    and "advance_deducted p =
           min (case advances_cache self (artist p) of None \<Rightarrow> 0 | Some b \<Rightarrow> b) (artist_share p)"
    and "\<exists>pct streams tracks. splits_cache self (artist p) = Some pct
           \<and> accumulate_rows py rs 0 0 {} = Inr (gross_revenue p, streams, tracks)
           \<and> quantize_half_up (dec_mul (gross_revenue p) pct) = Inr (artist_share p)"
proof -
  from assms obtain gross streams tracks pct share
    where acc: "accumulate_rows py rs 0 0 {} = Inr (gross, streams, tracks)"
      and pct: "cache_get (splits_cache self) k = Some pct"
      and share: "quantize_half_up (dec_mul gross pct) = Inr share"
      and p: "p = \<lparr>artist = str_of k, quarter = q, gross_revenue = gross,
                        split_pct = pct, artist_share = share,
                        advance_deducted =
                          min (case cache_get (advances_cache self) k of None \<Rightarrow> 0 | Some b \<Rightarrow> b)
                              share,
                        net_payout = dec_sub share
                          (min (case cache_get (advances_cache self) k of None \<Rightarrow> 0 | Some b \<Rightarrow> b)
                               share),
                        tracks_count = card tracks, streams_count = streams\<rparr>"
    by (auto simp: payout_of_def iteration_def split: sum.splits prod.splits option.splits)
  from pct obtain s where k: "k = PyStr s" and s: "splits_cache self s = Some pct"
    by (cases k) (simp_all add: cache_get_def)
  show "k = PyStr (artist p)" by (simp add: p k str_of_def)
  show "net_payout p = dec_sub (artist_share p) (advance_deducted p)" by (simp add: p)
  show "advance_deducted p =
           min (case advances_cache self (artist p) of None \<Rightarrow> 0 | Some b \<Rightarrow> b) (artist_share p)"
    by (simp add: p k str_of_def cache_get_def)
  show "\<exists>pct streams tracks. splits_cache self (artist p) = Some pct
           \<and> accumulate_rows py rs 0 0 {} = Inr (gross_revenue p, streams, tracks)
           \<and> quantize_half_up (dec_mul (gross_revenue p) pct) = Inr (artist_share p)"
    using acc s share by (simp add: p k str_of_def)
qed

lemma payout_of_None_iff:
  assumes "\<not> isl (iteration py self q item)"
  shows "payout_of py self q item = None \<longleftrightarrow> cache_get (splits_cache self) (fst item) = None"
  using assms
  by (auto simp: payout_of_def iteration_def split: sum.splits prod.splits option.splits)

lemma keys_map_filter:
  assumes "\<forall>item \<in> set items. \<not> isl (iteration py self q item)"
  shows "map (\<lambda>p. PyStr (artist p)) (List.map_filter (payout_of py self q) items) =
           filter (\<lambda>k. cache_get (splits_cache self) k \<noteq> None) (map fst items)"
  using assms
proof (induction items)
  case Nil
  then show ?case by simp
next
  case (Cons item items)
  then have this_one: "\<not> isl (iteration py self q item)"
    and IH: "map (\<lambda>p. PyStr (artist p)) (List.map_filter (payout_of py self q) items) =
           filter (\<lambda>k. cache_get (splits_cache self) k \<noteq> None) (map fst items)" by simp_all
  obtain k rs where item: "item = (k, rs)" by (cases item)
  show ?case
  proof (cases "payout_of py self q item")
    case None
    with payout_of_None_iff [OF this_one] IH show ?thesis by simp
  next
    case (Some p)
    with payout_of_None_iff [OF this_one] have "cache_get (splits_cache self) (fst item) \<noteq> None"
      by simp
    moreover from Some have "PyStr (artist p) = fst item"
      using payout_of_Some(1) [of py self q k rs p] by (simp add: item)
    ultimately show ?thesis using Some IH by simp
  qed
qed

lemma calculate_returned:
  assumes "returned (calculate py self q flt (Some rows)) = Inr ps"
  shows "ps = List.map_filter (payout_of py self q) (group_rows flt rows [])"
    and "\<forall>item \<in> set (group_rows flt rows []). \<not> isl (iteration py self q item)"
    and "warnings (calculate py self q flt (Some rows)) =
           filter (\<lambda>k. cache_get (splits_cache self) k = None) (map fst (group_rows flt rows []))"
proof -
  from assms have "\<exists>ps. returned (calculate_loop py self q (group_rows flt rows []) [] []) = Inr ps"
    by (simp add: calculate_def)
  then show ok: "\<forall>item \<in> set (group_rows flt rows []). \<not> isl (iteration py self q item)"
    by (simp only: calculate_returns_iff)
  from calculate_loop_returns(1) [OF ok, of "[]" "[]"] assms
  show "ps = List.map_filter (payout_of py self q) (group_rows flt rows [])"
    by (simp add: calculate_def)
  from calculate_loop_returns(2) [OF ok, of "[]" "[]"]
  show "warnings (calculate py self q flt (Some rows)) =
           filter (\<lambda>k. cache_get (splits_cache self) k = None) (map fst (group_rows flt rows []))"
    by (simp add: calculate_def)
qed

lemma in_payouts:
  assumes "p \<in> set (payouts (calculate py self q flt revenue_data))"
  shows "\<exists>k rs. payout_of py self q (k, rs) = Some p"
proof -
  define rows where "rows = (case revenue_data of None \<Rightarrow> [] | Some rows \<Rightarrow> rows)"
  have c: "calculate py self q flt revenue_data = calculate py self q flt (Some rows)"
    by (simp add: calculate_def rows_def)
  from assms obtain ps where r: "returned (calculate py self q flt (Some rows)) = Inr ps"
    and p: "p \<in> set ps"
    unfolding c payouts_def by (cases "returned (calculate py self q flt (Some rows))") auto
  from calculate_returned(1) [OF r] p show ?thesis
    by (auto simp: in_set_map_filter)
qed

lemma scenario_returned:
  "returned (calculate scenario_builtins scenario_manager ''Q4 2025'' None (Some scenario_rows)) =
    Inr [\<lparr>artist = ''Alice'', quarter = ''Q4 2025'', gross_revenue = 10000, split_pct = 7 / 10,
          artist_share = 7000, advance_deducted = 7000, net_payout = 0, tracks_count = 2,
          streams_count = 2000\<rparr>,
         \<lparr>artist = ''Bob'', quarter = ''Q4 2025'', gross_revenue = 500, split_pct = 4 / 5,
          artist_share = 400, advance_deducted = 100, net_payout = 300, tracks_count = 1,
          streams_count = 40\<rparr>]"
  by code_simp

lemma scenario_payouts:
  "payouts (calculate scenario_builtins scenario_manager ''Q4 2025'' None (Some scenario_rows)) =
    [\<lparr>artist = ''Alice'', quarter = ''Q4 2025'', gross_revenue = 10000, split_pct = 7 / 10,
      artist_share = 7000, advance_deducted = 7000, net_payout = 0, tracks_count = 2,
      streams_count = 2000\<rparr>,
     \<lparr>artist = ''Bob'', quarter = ''Q4 2025'', gross_revenue = 500, split_pct = 4 / 5,
      artist_share = 400, advance_deducted = 100, net_payout = 300, tracks_count = 1,
      streams_count = 40\<rparr>]"
  by (simp add: payouts_def scenario_returned)


text \<open>
  C2. \<open>calculate\<close> never mutates the advance ledger or the share table: after the call,
  for every quarter, artist filter and revenue rows, and whether the call returns or raises,
  \<open>_advances_cache\<close> and \<open>_splits_cache\<close> are what they were before; the netting of
  advances is read-only.
\<close>

theorem calculate_frame:
  "advances_cache (manager (calculate py self q flt revenue_data)) = advances_cache self
   \<and> splits_cache (manager (calculate py self q flt revenue_data)) = splits_cache self"
  by (simp add: calculate_def calculate_loop_manager)

text \<open>
  C1, as the code has it. For every call of \<open>calculate\<close> and every payout it returns:
  \<open>net_payout\<close> is the \<open>Decimal\<close> difference \<open>artist_share - advance_deducted\<close>, which
  is the exact difference whenever that difference can be written with 28 significant digits
  (otherwise it is that difference rounded to 28 digits); \<open>advance_deducted\<close> is
  \<open>min(balance, artist_share)\<close>, the balance being the artist's advance before the call
  (zero for an artist absent from the ledger), so the deduction is at most the share and at
  most that balance; and the deduction is non-negative exactly when both that balance and
  the share are: \<open>calculate\<close> checks no sign.
\<close>

theorem calculate_netting:
  "\<forall>p \<in> set (payouts (calculate py self q flt revenue_data)).
     net_payout p = dec_sub (artist_share p) (advance_deducted p)
     \<and> ((\<exists>n k. artist_share p - advance_deducted p = of_int n * 10 powi k \<and> \<bar>n\<bar> < 10 ^ 28) \<longrightarrow>
          net_payout p = artist_share p - advance_deducted p)
     \<and> advance_deducted p =
          min (case advances_cache self (artist p) of None \<Rightarrow> 0 | Some b \<Rightarrow> b) (artist_share p)
     \<and> advance_deducted p \<le> artist_share p
     \<and> advance_deducted p \<le> (case advances_cache self (artist p) of None \<Rightarrow> 0 | Some b \<Rightarrow> b)
     \<and> (0 \<le> advance_deducted p \<longleftrightarrow>
          0 \<le> (case advances_cache self (artist p) of None \<Rightarrow> 0 | Some b \<Rightarrow> b) \<and> 0 \<le> artist_share p)"
proof
  fix p
  assume "p \<in> set (payouts (calculate py self q flt revenue_data))"
  from in_payouts [OF this] obtain k rs where "payout_of py self q (k, rs) = Some p" by blast
  note n = payout_of_Some(2,3) [OF this]
  define b where "b = (case advances_cache self (artist p) of None \<Rightarrow> 0 | Some b \<Rightarrow> b)"
  have m: "advance_deducted p = min b (artist_share p)" using n(2) by (simp add: b_def)
  then have o: "advance_deducted p \<le> artist_share p \<and> advance_deducted p \<le> b
     \<and> (0 \<le> advance_deducted p \<longleftrightarrow> 0 \<le> b \<and> 0 \<le> artist_share p)"
    by auto
  have e: "(\<exists>n k. artist_share p - advance_deducted p = of_int n * 10 powi k \<and> \<bar>n\<bar> < 10 ^ 28) \<longrightarrow>
          net_payout p = artist_share p - advance_deducted p"
    using n(1) dec_round_exact by (auto simp: dec_sub_def)
  from n(1) e m o
  show "net_payout p = dec_sub (artist_share p) (advance_deducted p)
     \<and> ((\<exists>n k. artist_share p - advance_deducted p = of_int n * 10 powi k \<and> \<bar>n\<bar> < 10 ^ 28) \<longrightarrow>
          net_payout p = artist_share p - advance_deducted p)
     \<and> advance_deducted p =
          min (case advances_cache self (artist p) of None \<Rightarrow> 0 | Some b \<Rightarrow> b) (artist_share p)
     \<and> advance_deducted p \<le> artist_share p
     \<and> advance_deducted p \<le> (case advances_cache self (artist p) of None \<Rightarrow> 0 | Some b \<Rightarrow> b)
     \<and> (0 \<le> advance_deducted p \<longleftrightarrow>
          0 \<le> (case advances_cache self (artist p) of None \<Rightarrow> 0 | Some b \<Rightarrow> b) \<and> 0 \<le> artist_share p)"
    unfolding b_def by blast
qed

theorem calculate_netting_witness:
  "list_all (\<lambda>p. net_payout p = dec_sub (artist_share p) (advance_deducted p)
       \<and> net_payout p = artist_share p - advance_deducted p
       \<and> advance_deducted p =
            min (case advances_cache scenario_manager (artist p) of None \<Rightarrow> 0 | Some b \<Rightarrow> b)
                (artist_share p)
       \<and> advance_deducted p \<le> artist_share p
       \<and> advance_deducted p \<le> (case advances_cache scenario_manager (artist p) of None \<Rightarrow> 0 | Some b \<Rightarrow> b)
       \<and> 0 \<le> advance_deducted p)
     (payouts (calculate scenario_builtins scenario_manager ''Q4 2025'' None (Some scenario_rows)))
   \<and> map net_payout
        (payouts (calculate scenario_builtins scenario_manager ''Q4 2025'' None (Some scenario_rows)))
       = [0, 300]"
proof -
  let ?ps = "payouts (calculate scenario_builtins scenario_manager ''Q4 2025'' None (Some scenario_rows))"
  note t = calculate_netting [of scenario_builtins scenario_manager "''Q4 2025''" None
      "Some scenario_rows"]
  have digits: "\<forall>p \<in> set ?ps. \<exists>n k. artist_share p - advance_deducted p = of_int n * 10 powi k
      \<and> \<bar>n\<bar> < 10 ^ 28"
  proof -
    have 1: "\<exists>n k. (0 :: rat) = of_int n * 10 powi k \<and> \<bar>n\<bar> < 10 ^ 28"
      by (rule exI [of _ 0], rule exI [of _ 0]) simp
    have 2: "\<exists>n k. (300 :: rat) = of_int n * 10 powi k \<and> \<bar>n\<bar> < 10 ^ 28"
      by (rule exI [of _ 300], rule exI [of _ 0]) simp
    show ?thesis unfolding scenario_payouts using 1 2 by simp
  qed
  have sign: "\<forall>p \<in> set ?ps.
      0 \<le> (case advances_cache scenario_manager (artist p) of None \<Rightarrow> 0 | Some b \<Rightarrow> b)
      \<and> 0 \<le> artist_share p"
    unfolding scenario_payouts by (simp add: scenario_manager_def)
  have "\<forall>p \<in> set ?ps. net_payout p = dec_sub (artist_share p) (advance_deducted p)
       \<and> net_payout p = artist_share p - advance_deducted p
       \<and> advance_deducted p =
            min (case advances_cache scenario_manager (artist p) of None \<Rightarrow> 0 | Some b \<Rightarrow> b)
                (artist_share p)
       \<and> advance_deducted p \<le> artist_share p
       \<and> advance_deducted p \<le> (case advances_cache scenario_manager (artist p) of None \<Rightarrow> 0 | Some b \<Rightarrow> b)
       \<and> 0 \<le> advance_deducted p"
    using t digits sign by blast
  then show ?thesis by (simp add: list_all_iff scenario_payouts)
qed

theorem calculate_netting_counterexample:
  "map advance_deducted
     (payouts (calculate scenario_builtins
        \<lparr>splits_cache = [''Alice'' \<mapsto> 1 / 2], advances_cache = Map.empty\<rparr>
        ''Q4 2025'' None
        (Some [[''artist'' \<mapsto> PyStr ''Alice'', ''revenue'' \<mapsto> PyNum (- 10)]]))) = [- 5]
   \<and> map (\<lambda>p. (artist_share p, advance_deducted p, net_payout p))
     (payouts (calculate scenario_builtins
        \<lparr>splits_cache = [''Alice'' \<mapsto> 1], advances_cache = [''Alice'' \<mapsto> 1 / 1000]\<rparr>
        ''Q4 2025'' None
        (Some [[''artist'' \<mapsto> PyStr ''Alice'', ''revenue'' \<mapsto> PyNum (10 ^ 25 + 1 / 100)]])))
       = [(10 ^ 25 + 1 / 100, 1 / 1000, 10 ^ 25 + 1 / 100)]"
  by code_simp



lemma calculated_artists:
  assumes "returned (calculate py self q flt (Some rows)) = Inr ps"
  shows "distinct (map artist ps)
   \<and> set (map artist ps) =
       {a. splits_cache self a \<noteq> None
           \<and> (\<exists>row \<in> set rows. artist_of row = PyStr a \<and> \<not> filtered_out flt (PyStr a))}
   \<and> distinct (warnings (calculate py self q flt (Some rows)))
   \<and> set (warnings (calculate py self q flt (Some rows))) =
       {k. cache_get (splits_cache self) k = None
           \<and> (\<exists>row \<in> set rows. artist_of row = k \<and> \<not> filtered_out flt k)}"
proof -
  note r = calculate_returned [OF assms]
  have d: "distinct (map fst (group_rows flt rows []))"
    by (rule distinct_group_rows) simp
  have k: "set (map fst (group_rows flt rows [])) =
      {a. \<exists>row \<in> set rows. artist_of row = a \<and> \<not> filtered_out flt a}"
    using keys_group_rows [of flt rows "[]"] by simp
  have m: "map PyStr (map artist ps) =
      filter (\<lambda>k. cache_get (splits_cache self) k \<noteq> None) (map fst (group_rows flt rows []))"
    using keys_map_filter [OF r(2)] by (simp add: r(1) comp_def)
  from d have "distinct (map PyStr (map artist ps))" unfolding m by simp
  then have 1: "distinct (map artist ps)" by (simp only: distinct_map)
  have "set (map PyStr (map artist ps)) =
      set (filter (\<lambda>k. cache_get (splits_cache self) k \<noteq> None) (map fst (group_rows flt rows [])))"
    by (simp only: m)
  then have "PyStr ` set (map artist ps) =
      {k \<in> set (map fst (group_rows flt rows [])). cache_get (splits_cache self) k \<noteq> None}"
    by (simp only: set_map set_filter)
  then have "PyStr ` set (map artist ps) =
      {k. cache_get (splits_cache self) k \<noteq> None
          \<and> (\<exists>row \<in> set rows. artist_of row = k \<and> \<not> filtered_out flt k)}"
    unfolding k by blast
  then have e: "PyStr a \<in> PyStr ` set (map artist ps) \<longleftrightarrow>
      splits_cache self a \<noteq> None
        \<and> (\<exists>row \<in> set rows. artist_of row = PyStr a \<and> \<not> filtered_out flt (PyStr a))" for a
    by (simp add: cache_get_def)
  have "a \<in> set (map artist ps) \<longleftrightarrow> PyStr a \<in> PyStr ` set (map artist ps)" for a
    by (rule inj_image_mem_iff [symmetric]) (simp add: inj_on_def)
  then have 2: "set (map artist ps) =
       {a. splits_cache self a \<noteq> None
           \<and> (\<exists>row \<in> set rows. artist_of row = PyStr a \<and> \<not> filtered_out flt (PyStr a))}"
    unfolding e by blast
  have 3: "distinct (warnings (calculate py self q flt (Some rows)))"
    using d by (simp add: r(3))
  have 4: "set (warnings (calculate py self q flt (Some rows))) =
       {k. cache_get (splits_cache self) k = None
           \<and> (\<exists>row \<in> set rows. artist_of row = k \<and> \<not> filtered_out flt k)}"
    using k by (auto simp: r(3))
  from 1 2 3 4 show ?thesis by blast
qed





lemma setdefault_append_map:
  assumes "\<And>r. artist_of (f r) = artist_of r"
  shows "setdefault_append (map (\<lambda>(k, rs). (k, map f rs)) kvs) a (f r) =
         map (\<lambda>(k, rs). (k, map f rs)) (setdefault_append kvs a r)"
  by (induction kvs a r rule: setdefault_append.induct) auto

lemma group_rows_map:
  assumes "\<And>r. artist_of (f r) = artist_of r"
  shows "group_rows flt (map f rows) (map (\<lambda>(k, rs). (k, map f rs)) acc) =
         map (\<lambda>(k, rs). (k, map f rs)) (group_rows flt rows acc)"
proof (induction rows arbitrary: acc)
  case Nil
  then show ?case by simp
next
  case (Cons row rows)
  show ?case
    using Cons.IH [of acc] Cons.IH [of "setdefault_append acc (artist_of row) row"]
    by (simp add: Let_def assms setdefault_append_map [OF assms])
qed

lemma accumulate_rows_map:
  assumes "\<And>r. f r ''revenue'' = r ''revenue''" "\<And>r. f r ''streams'' = r ''streams''"
    "\<And>r. f r ''track'' = r ''track''"
  shows "accumulate_rows py (map f rows) g s t = accumulate_rows py rows g s t"
  by (induction rows arbitrary: g s t) (simp_all add: assms split: sum.split)

lemma calculate_loop_map:
  assumes "\<And>r. f r ''revenue'' = r ''revenue''" "\<And>r. f r ''streams'' = r ''streams''"
    "\<And>r. f r ''track'' = r ''track''"
  shows "calculate_loop py self q (map (\<lambda>(k, rs). (k, map f rs)) items) results warns =
         calculate_loop py self q items results warns"
proof (induction items arbitrary: results warns)
  case Nil
  then show ?case by simp
next
  case (Cons item items)
  obtain k rs where item: "item = (k, rs)" by (cases item)
  have i: "iteration py self q (k, map f rs) = iteration py self q (k, rs)"
    by (simp add: iteration_def accumulate_rows_map [of f, OF assms])
  show ?case
    by (simp add: item calculate_loop_step i Cons.IH split: sum.split option.split)
qed

lemma calculate_unknown_rows:
  "calculate py self q flt (Some (map (\<lambda>row. row(''artist'' \<mapsto> artist_of row)) rows)) =
   calculate py self q flt (Some rows)"
proof -
  let ?f = "\<lambda>row :: revenue_row. row(''artist'' \<mapsto> artist_of row)"
  have a: "\<And>r. artist_of (?f r) = artist_of r" by (simp add: artist_of_def)
  have "group_rows flt (map ?f rows) [] = map (\<lambda>(k, rs). (k, map ?f rs)) (group_rows flt rows [])"
    using group_rows_map [of ?f flt rows "[]", OF a] by simp
  then show ?thesis
    by (simp add: calculate_def calculate_loop_map [of ?f])
qed

lemma filter_distinct_key:
  "distinct (map f xs) \<Longrightarrow> a \<in> f ` set xs \<Longrightarrow> \<exists>x. filter (\<lambda>x. f x = a) xs = [x]"
proof (induction xs)
  case Nil
  then show ?case by simp
next
  case (Cons x xs)
  show ?case
  proof (cases "f x = a")
    case True
    with Cons.prems have "a \<notin> f ` set xs" by simp
    then have "\<forall>y \<in> set xs. f y \<noteq> a" by blast
    then have "filter (\<lambda>x. f x = a) xs = []" by (simp add: filter_empty_conv)
    with True show ?thesis by simp
  next
    case False
    with Cons show ?thesis by auto
  qed
qed

text \<open>
  C10, as the code has it. A revenue row without the key \<open>artist\<close> is treated by
  \<open>calculate\<close> exactly as a row of the artist named \<open>Unknown\<close>: giving every row its
  effective artist changes nothing in the outcome. When the call returns, such a row exists
  and the artist filter admits \<open>Unknown\<close>: with a share entry for \<open>Unknown\<close> there is
  exactly one payout under that name, its gross revenue is the one accumulated over all the
  rows grouped under \<open>Unknown\<close> and its share is that gross times the fraction, rounded;
  without a share entry there is no payout under that name and \<open>Unknown\<close> is reported as
  skipped. A row whose key \<open>artist\<close> is present and holds \<open>None\<close> is not grouped under
  \<open>Unknown\<close>: \<open>row.get\<close> returns the \<open>None\<close>, the row is grouped under the key
  \<open>None\<close>, which has no split, and is skipped with a warning whatever the share table
  holds for \<open>Unknown\<close>.
\<close>

theorem calculate_unknown_artist:
  "calculate py self q flt (Some (map (\<lambda>row. row(''artist'' \<mapsto> artist_of row)) rows)) =
     calculate py self q flt (Some rows)
   \<and> (\<forall>ps. returned (calculate py self q flt (Some rows)) = Inr ps
          \<and> (\<exists>row \<in> set rows. row ''artist'' = None) \<and> \<not> filtered_out flt (PyStr ''Unknown'') \<longrightarrow>
        (case splits_cache self ''Unknown'' of
           None \<Rightarrow> PyStr ''Unknown'' \<in> set (warnings (calculate py self q flt (Some rows)))
                  \<and> ''Unknown'' \<notin> set (map artist ps)
         | Some pct \<Rightarrow>
             (\<exists>p. filter (\<lambda>p. artist p = ''Unknown'') ps = [p]
                \<and> (\<exists>streams tracks.
                      accumulate_rows py (filter (\<lambda>row. artist_of row = PyStr ''Unknown'') rows) 0 0 {}
                        = Inr (gross_revenue p, streams, tracks))
                \<and> quantize_half_up (dec_mul (gross_revenue p) pct) = Inr (artist_share p))))
   \<and> (\<forall>ps. returned (calculate py self q flt (Some rows)) = Inr ps
          \<and> (\<exists>row \<in> set rows. row ''artist'' = Some PyNone) \<and> \<not> filtered_out flt PyNone \<longrightarrow>
        PyNone \<in> set (warnings (calculate py self q flt (Some rows))))"
proof (intro conjI allI impI)
  show "calculate py self q flt (Some (map (\<lambda>row. row(''artist'' \<mapsto> artist_of row)) rows)) =
     calculate py self q flt (Some rows)"
    by (rule calculate_unknown_rows)
next
  fix ps
  let ?res = "calculate py self q flt (Some rows)"
  assume h: "returned ?res = Inr ps
          \<and> (\<exists>row \<in> set rows. row ''artist'' = None) \<and> \<not> filtered_out flt (PyStr ''Unknown'')"
  then have r: "returned ?res = Inr ps" by blast
  from h obtain r0 where "r0 \<in> set rows" "r0 ''artist'' = None" by blast
  then have "r0 \<in> set rows \<and> artist_of r0 = PyStr ''Unknown''" by (simp add: artist_of_def)
  with h have ex: "\<exists>row \<in> set rows. artist_of row = PyStr ''Unknown''
      \<and> \<not> filtered_out flt (PyStr ''Unknown'')"
    by blast
  note skip = calculated_artists [OF r]
  show "case splits_cache self ''Unknown'' of
           None \<Rightarrow> PyStr ''Unknown'' \<in> set (warnings ?res) \<and> ''Unknown'' \<notin> set (map artist ps)
         | Some pct \<Rightarrow>
             (\<exists>p. filter (\<lambda>p. artist p = ''Unknown'') ps = [p]
                \<and> (\<exists>streams tracks.
                      accumulate_rows py (filter (\<lambda>row. artist_of row = PyStr ''Unknown'') rows) 0 0 {}
                        = Inr (gross_revenue p, streams, tracks))
                \<and> quantize_half_up (dec_mul (gross_revenue p) pct) = Inr (artist_share p))"
  proof (cases "splits_cache self ''Unknown''")
    case None
    then have "cache_get (splits_cache self) (PyStr ''Unknown'') = None" by (simp add: cache_get_def)
    with skip ex have "PyStr ''Unknown'' \<in> set (warnings ?res)" by simp
    moreover have "''Unknown'' \<notin> set (map artist ps)"
      using skip None by simp
    ultimately show ?thesis using None by simp
  next
    case (Some pct)
    have "''Unknown'' \<in> artist ` set ps"
      using skip ex Some by simp
    from filter_distinct_key [OF _ this] skip
    obtain p where p: "filter (\<lambda>p. artist p = ''Unknown'') ps = [p]" by blast
    then have "p \<in> set (filter (\<lambda>p. artist p = ''Unknown'') ps)" by simp
    then have pin: "p \<in> set ps" and pa: "artist p = ''Unknown''" by simp_all
    from pin calculate_returned(1) [OF r]
    obtain item where item: "item \<in> set (group_rows flt rows [])"
      and po: "payout_of py self q item = Some p"
      by (auto simp: in_set_map_filter)
    obtain k rs where krs: "item = (k, rs)" by (cases item)
    note f = payout_of_Some [OF po [unfolded krs]]
    have k: "k = PyStr ''Unknown''" using f(1) pa by simp
    have rs: "rs = filter (\<lambda>r. artist_of r = PyStr ''Unknown'') rows"
      using group_rows_entry(1) [of k rs flt rows] item krs k by simp
    from f(4) Some pa rs
    have "(\<exists>streams tracks.
                      accumulate_rows py (filter (\<lambda>row. artist_of row = PyStr ''Unknown'') rows) 0 0 {}
                        = Inr (gross_revenue p, streams, tracks))
                \<and> quantize_half_up (dec_mul (gross_revenue p) pct) = Inr (artist_share p)"
      by auto
    with p Some show ?thesis by simp
  qed
next
  fix ps
  let ?res = "calculate py self q flt (Some rows)"
  assume h: "returned ?res = Inr ps
          \<and> (\<exists>row \<in> set rows. row ''artist'' = Some PyNone) \<and> \<not> filtered_out flt PyNone"
  then have r: "returned ?res = Inr ps" by blast
  from h obtain r0 where "r0 \<in> set rows" "r0 ''artist'' = Some PyNone" by blast
  then have "r0 \<in> set rows \<and> artist_of r0 = PyNone" by (simp add: artist_of_def)
  with h have "\<exists>row \<in> set rows. artist_of row = PyNone \<and> \<not> filtered_out flt PyNone" by blast
  moreover have "cache_get (splits_cache self) PyNone = None" by (simp add: cache_get_def)
  ultimately show "PyNone \<in> set (warnings ?res)"
    using calculated_artists [OF r] by simp
qed

theorem calculate_unknown_artist_witness:
  "(\<exists>row \<in> set scenario_rows. row ''artist'' = None)
   \<and> \<not> filtered_out None (PyStr ''Unknown'')
   \<and> (\<exists>ps p. returned (calculate scenario_builtins
                 (scenario_manager\<lparr>splits_cache := (splits_cache scenario_manager)(''Unknown'' \<mapsto> 1 / 2)\<rparr>)
                 ''Q4 2025'' None (Some scenario_rows)) = Inr ps
          \<and> filter (\<lambda>p. artist p = ''Unknown'') ps = [p]
          \<and> gross_revenue p = 25 \<and> artist_share p = 25 / 2)
   \<and> (\<exists>row \<in> set [[''artist'' \<mapsto> PyNone, ''revenue'' \<mapsto> PyNum 25]]. row ''artist'' = Some PyNone)
   \<and> \<not> filtered_out None PyNone
   \<and> PyNone \<in> set (warnings (calculate scenario_builtins
          (scenario_manager\<lparr>splits_cache := (splits_cache scenario_manager)(''Unknown'' \<mapsto> 1 / 2)\<rparr>)
          ''Q4 2025'' None (Some [[''artist'' \<mapsto> PyNone, ''revenue'' \<mapsto> PyNum 25]])))"
proof -
  let ?m = "scenario_manager\<lparr>splits_cache := (splits_cache scenario_manager)(''Unknown'' \<mapsto> 1 / 2)\<rparr>"
  let ?res = "calculate scenario_builtins ?m ''Q4 2025'' None (Some scenario_rows)"
  have r: "\<exists>row \<in> set scenario_rows. row ''artist'' = None"
    by (simp add: scenario_rows_def)
  have f: "\<not> filtered_out None (PyStr ''Unknown'')"
    by (simp add: filtered_out_def)
  have s: "splits_cache ?m ''Unknown'' = Some (1 / 2)" by simp
  have "\<not> isl (returned ?res)" by code_simp
  then obtain ps where ps: "returned ?res = Inr ps" by (cases "returned ?res") simp_all
  have g: "accumulate_rows scenario_builtins
             (filter (\<lambda>row. artist_of row = PyStr ''Unknown'') scenario_rows) 0 0 {} = Inr (25, 0, {})"
    by code_simp
  have q: "quantize_half_up (dec_mul 25 (1 / 2)) = Inr (25 / 2)" by code_simp
  from calculate_unknown_artist [of scenario_builtins ?m "''Q4 2025''" None scenario_rows,
      THEN conjunct2, THEN conjunct1, rule_format, of ps] ps r f
  have "case splits_cache ?m ''Unknown'' of
           None \<Rightarrow> PyStr ''Unknown'' \<in> set (warnings ?res) \<and> ''Unknown'' \<notin> set (map artist ps)
         | Some pct \<Rightarrow>
             (\<exists>p. filter (\<lambda>p. artist p = ''Unknown'') ps = [p]
                \<and> (\<exists>streams tracks.
                      accumulate_rows scenario_builtins
                        (filter (\<lambda>row. artist_of row = PyStr ''Unknown'') scenario_rows) 0 0 {}
                        = Inr (gross_revenue p, streams, tracks))
                \<and> quantize_half_up (dec_mul (gross_revenue p) pct) = Inr (artist_share p))"
    by blast
  then obtain p where p: "filter (\<lambda>p. artist p = ''Unknown'') ps = [p]"
    and a: "\<exists>streams tracks. accumulate_rows scenario_builtins
                        (filter (\<lambda>row. artist_of row = PyStr ''Unknown'') scenario_rows) 0 0 {}
                        = Inr (gross_revenue p, streams, tracks)"
    and h: "quantize_half_up (dec_mul (gross_revenue p) (1 / 2)) = Inr (artist_share p)"
    unfolding s by auto
  from a have gr: "gross_revenue p = 25" unfolding g by simp
  with h q have sh: "artist_share p = 25 / 2" by simp
  let ?rows = "[[''artist'' \<mapsto> PyNone, ''revenue'' \<mapsto> PyNum 25]] :: revenue_row list"
  have r': "\<exists>row \<in> set ?rows. row ''artist'' = Some PyNone" by simp
  have f': "\<not> filtered_out None PyNone" by (simp add: filtered_out_def)
  have e: "returned (calculate scenario_builtins ?m ''Q4 2025'' None (Some ?rows)) = Inr []"
    by code_simp
  from calculate_unknown_artist [of scenario_builtins ?m "''Q4 2025''" None ?rows,
      THEN conjunct2, THEN conjunct2, rule_format, of "[]"] e r' f'
  have w: "PyNone \<in> set (warnings (calculate scenario_builtins ?m ''Q4 2025'' None (Some ?rows)))"
    by blast
  from ps p gr sh have "\<exists>ps p. returned ?res = Inr ps
          \<and> filter (\<lambda>p. artist p = ''Unknown'') ps = [p]
          \<and> gross_revenue p = 25 \<and> artist_share p = 25 / 2"
    by blast
  with r f r' f' w show ?thesis by blast
qed

theorem calculate_unknown_artist_counterexample:
  "splits_cache (scenario_manager\<lparr>splits_cache := (splits_cache scenario_manager)(''Unknown'' \<mapsto> 1 / 2)\<rparr>)
      ''Unknown'' = Some (1 / 2)
   \<and> returned (calculate scenario_builtins
        (scenario_manager\<lparr>splits_cache := (splits_cache scenario_manager)(''Unknown'' \<mapsto> 1 / 2)\<rparr>)
        ''Q4 2025'' None (Some [[''artist'' \<mapsto> PyNone, ''revenue'' \<mapsto> PyNum 25]])) = Inr []
   \<and> warnings (calculate scenario_builtins
        (scenario_manager\<lparr>splits_cache := (splits_cache scenario_manager)(''Unknown'' \<mapsto> 1 / 2)\<rparr>)
        ''Q4 2025'' None (Some [[''artist'' \<mapsto> PyNone, ''revenue'' \<mapsto> PyNum 25]])) = [PyNone]"
  by code_simp

section \<open>Rounding in apply\_split\<close>

lemma floor_tenfold:
  fixes z :: rat
  shows "\<lfloor>10 * z\<rfloor> = 10 * \<lfloor>z\<rfloor> + \<lfloor>10 * (z - of_int \<lfloor>z\<rfloor>)\<rfloor>"
proof -
  have "10 * z = of_int (10 * \<lfloor>z\<rfloor>) + 10 * (z - of_int \<lfloor>z\<rfloor>)" by simp
  then have "\<lfloor>10 * z\<rfloor> = \<lfloor>of_int (10 * \<lfloor>z\<rfloor>) + 10 * (z - of_int \<lfloor>z\<rfloor>)\<rfloor>" by simp
  also have "\<dots> = 10 * \<lfloor>z\<rfloor> + \<lfloor>10 * (z - of_int \<lfloor>z\<rfloor>)\<rfloor>"
    by (rule int_add_floor [symmetric])
  finally show ?thesis .
qed

lemma third_digit:
  fixes z :: rat
  shows "\<lfloor>10 * z\<rfloor> mod 10 = \<lfloor>10 * (z - of_int \<lfloor>z\<rfloor>)\<rfloor>"
proof -
  let ?f = "z - of_int \<lfloor>z\<rfloor>"
  have "0 \<le> ?f" "?f < 1" by linarith+
  then have "0 \<le> \<lfloor>10 * ?f\<rfloor>" "\<lfloor>10 * ?f\<rfloor> < 10" by (simp_all add: floor_less_iff)
  then show ?thesis by (simp add: floor_tenfold [of z])
qed

lemma half_up_floor:
  fixes z :: rat
  shows "\<lfloor>z + 1 / 2\<rfloor> = (if 5 \<le> \<lfloor>10 * z\<rfloor> mod 10 then \<lfloor>z\<rfloor> + 1 else \<lfloor>z\<rfloor>)"
proof -
  let ?f = "z - of_int \<lfloor>z\<rfloor>"
  have f: "0 \<le> ?f" "?f < 1" by linarith+
  have "5 \<le> \<lfloor>10 * ?f\<rfloor> \<longleftrightarrow> 1 / 2 \<le> ?f" by (auto simp: le_floor_iff)
  then have d: "5 \<le> \<lfloor>10 * z\<rfloor> mod 10 \<longleftrightarrow> 1 / 2 \<le> ?f" by (simp add: third_digit)
  show ?thesis
  proof (cases "1 / 2 \<le> ?f")
    case True
    then have "\<lfloor>z + 1 / 2\<rfloor> = \<lfloor>z\<rfloor> + 1" using f by (intro floor_unique) simp_all
    with True d show ?thesis by simp
  next
    case False
    then have "\<lfloor>z + 1 / 2\<rfloor> = \<lfloor>z\<rfloor>" using f by (intro floor_unique) linarith+
    with False d show ?thesis by simp
  qed
qed

lemma half_up_cents_abs:
  "\<bar>half_up_cents x\<bar> = of_int \<lfloor>\<bar>x\<bar> * 100 + 1 / 2\<rfloor> / 100"
proof (cases "0 \<le> x")
  case True
  then have "0 \<le> \<lfloor>x * 100 + 1 / 2\<rfloor>" by simp
  with True show ?thesis by (simp add: half_up_cents_def)
next
  case False
  then have "0 \<le> \<lfloor>- x * 100 + 1 / 2\<rfloor>" by simp
  with False show ?thesis by (simp add: half_up_cents_def)
qed

lemma half_up_cents_near:
  "\<bar>half_up_cents x - x\<bar> \<le> 1 / 200"
proof -
  have *: "\<bar>of_int \<lfloor>y * 100 + 1 / 2\<rfloor> / 100 - y\<bar> \<le> 1 / 200" for y :: rat
  proof -
    define n :: rat where "n = of_int \<lfloor>y * 100 + 1 / 2\<rfloor>"
    have "n \<le> y * 100 + 1 / 2" unfolding n_def by (rule of_int_floor_le)
    moreover have "y * 100 + 1 / 2 < n + 1" unfolding n_def by linarith
    ultimately have "\<bar>n / 100 - y\<bar> \<le> 1 / 200" unfolding abs_le_iff by linarith
    then show ?thesis by (simp add: n_def)
  qed
  show ?thesis
  proof (cases "0 \<le> x")
    case True
    then show ?thesis using * [of x] by (simp add: half_up_cents_def)
  next
    case False
    have "\<bar>- (of_int \<lfloor>- x * 100 + 1 / 2\<rfloor> / 100) - x\<bar> = \<bar>of_int \<lfloor>- x * 100 + 1 / 2\<rfloor> / 100 - (- x)\<bar>"
      by (simp only: abs_minus_commute [of "- (of_int \<lfloor>- x * 100 + 1 / 2\<rfloor> / 100)" x] diff_minus_eq_add add.commute)
    with False show ?thesis using * [of "- x"] by (simp only: half_up_cents_def if_False)
  qed
qed

lemma half_up_cents_sign:
  "(0 \<le> x \<longrightarrow> 0 \<le> half_up_cents x) \<and> (x \<le> 0 \<longrightarrow> half_up_cents x \<le> 0)"
  by (auto simp: half_up_cents_def)

lemma half_up_cents_cents: "\<exists>n::int. half_up_cents x = of_int n / 100"
proof (cases "0 \<le> x")
  case True
  then show ?thesis by (auto simp: half_up_cents_def)
next
  case False
  then have "half_up_cents x = of_int (- \<lfloor>- x * 100 + 1 / 2\<rfloor>) / 100"
    by (simp add: half_up_cents_def)
  then show ?thesis by blast
qed

lemma half_up_cents_bound:
  assumes "\<bar>x\<bar> \<le> 10 ^ 26 - 1 / 100"
  shows "\<bar>half_up_cents x\<bar> < 10 ^ 26"
proof -
  have "\<bar>half_up_cents x\<bar> \<le> \<bar>half_up_cents x - x\<bar> + \<bar>x\<bar>" by simp
  also have "\<dots> \<le> 1 / 200 + (10 ^ 26 - 1 / 100)"
    using half_up_cents_near [of x] assms by linarith
  finally show ?thesis by simp
qed

lemma half_up_cents_large:
  assumes "10 ^ 26 \<le> \<bar>x\<bar>"
  shows "10 ^ 26 \<le> \<bar>half_up_cents x\<bar>"
proof -
  have "(of_int (10 ^ 28) :: rat) \<le> \<bar>x\<bar> * 100 + 1 / 2" using assms by simp
  then have "10 ^ 28 \<le> \<lfloor>\<bar>x\<bar> * 100 + 1 / 2\<rfloor>" by (simp only: le_floor_iff)
  then have "(of_int (10 ^ 28) :: rat) \<le> of_int \<lfloor>\<bar>x\<bar> * 100 + 1 / 2\<rfloor>"
    by (simp only: of_int_le_iff)
  then show ?thesis by (simp add: half_up_cents_abs)
qed

text \<open>
  C6, as the code has it. For every revenue amount and every artist with a fraction in the
  share table, \<open>apply_split\<close> takes the \<open>Decimal\<close> product \<open>revenue * fraction\<close>, which
  is the exact product whenever that can be written with 28 significant digits (otherwise
  the product rounded half-even to 28 digits), and rounds it half-up to two decimal places:
  the rounded value \<open>r\<close> is a whole number of cents, at most half a cent from the
  \<open>Decimal\<close> product and of its sign, and its magnitude is the magnitude of that product
  cut after the second decimal, plus one cent exactly when the third decimal digit is 5 or
  more, so that a product ending in \<open>.005\<close> goes a cent up in magnitude, never to the even
  cent. \<open>apply_split\<close> returns \<open>r\<close> when its magnitude is below \<open>10 ^ 26\<close>, which it
  is for every product of magnitude at most \<open>10 ^ 26 - 0.01\<close>, and raises
  \<open>InvalidOperation\<close> otherwise, as it does for every product of magnitude \<open>10 ^ 26\<close>
  or more.
\<close>

theorem apply_split_round_half_up:
  assumes "splits_cache self a = Some pct"
  shows "\<exists>r. apply_split self revenue (PyStr a) =
           (if 10 ^ 26 \<le> \<bar>r\<bar> then Inl InvalidOperation else Inr r)
     \<and> (\<exists>n::int. r = of_int n / 100)
     \<and> \<bar>r - dec_mul revenue pct\<bar> \<le> 1 / 200
     \<and> (0 \<le> dec_mul revenue pct \<longrightarrow> 0 \<le> r) \<and> (dec_mul revenue pct \<le> 0 \<longrightarrow> r \<le> 0)
     \<and> \<bar>r\<bar> = (if 5 \<le> \<lfloor>\<bar>dec_mul revenue pct\<bar> * 1000\<rfloor> mod 10
              then of_int (\<lfloor>\<bar>dec_mul revenue pct\<bar> * 100\<rfloor> + 1) / 100
              else of_int \<lfloor>\<bar>dec_mul revenue pct\<bar> * 100\<rfloor> / 100)
     \<and> (\<bar>dec_mul revenue pct\<bar> \<le> 10 ^ 26 - 1 / 100 \<longrightarrow> \<bar>r\<bar> < 10 ^ 26)
     \<and> (10 ^ 26 \<le> \<bar>dec_mul revenue pct\<bar> \<longrightarrow> 10 ^ 26 \<le> \<bar>r\<bar>)
     \<and> ((\<exists>n k. revenue * pct = of_int n * 10 powi k \<and> \<bar>n\<bar> < 10 ^ 28) \<longrightarrow>
           dec_mul revenue pct = revenue * pct)"
proof -
  let ?x = "dec_mul revenue pct"
  have eq: "10 * (\<bar>?x\<bar> * 100) = \<bar>?x\<bar> * 1000" by simp
  have "\<lfloor>\<bar>?x\<bar> * 100 + 1 / 2\<rfloor> =
      (if 5 \<le> \<lfloor>\<bar>?x\<bar> * 1000\<rfloor> mod 10 then \<lfloor>\<bar>?x\<bar> * 100\<rfloor> + 1 else \<lfloor>\<bar>?x\<bar> * 100\<rfloor>)"
    using half_up_floor [of "\<bar>?x\<bar> * 100"] unfolding eq .
  then have d: "\<bar>half_up_cents ?x\<bar> = (if 5 \<le> \<lfloor>\<bar>?x\<bar> * 1000\<rfloor> mod 10
              then of_int (\<lfloor>\<bar>?x\<bar> * 100\<rfloor> + 1) / 100
              else of_int \<lfloor>\<bar>?x\<bar> * 100\<rfloor> / 100)"
    by (simp only: half_up_cents_abs if_distrib [of "\<lambda>n. of_int n / 100"])
  have a: "apply_split self revenue (PyStr a) =
      (if 10 ^ 26 \<le> \<bar>half_up_cents ?x\<bar> then Inl InvalidOperation else Inr (half_up_cents ?x))"
    using assms by (simp add: apply_split_def cache_get_def quantize_half_up_def)
  have e: "(\<exists>n k. revenue * pct = of_int n * 10 powi k \<and> \<bar>n\<bar> < 10 ^ 28) \<longrightarrow>
           dec_mul revenue pct = revenue * pct"
    using dec_round_exact by (auto simp: dec_mul_def)
  have b: "\<bar>?x\<bar> \<le> 10 ^ 26 - 1 / 100 \<longrightarrow> \<bar>half_up_cents ?x\<bar> < 10 ^ 26"
    using half_up_cents_bound by blast
  have l: "10 ^ 26 \<le> \<bar>?x\<bar> \<longrightarrow> 10 ^ 26 \<le> \<bar>half_up_cents ?x\<bar>"
    using half_up_cents_large by blast
  from a d e b l half_up_cents_cents [of ?x] half_up_cents_near [of ?x] half_up_cents_sign [of ?x]
  show ?thesis by blast
qed

theorem apply_split_round_half_up_witness:
  "splits_cache \<lparr>splits_cache = [''Alice'' \<mapsto> 1 / 20], advances_cache = Map.empty\<rparr> ''Alice''
     = Some (1 / 20)
   \<and> apply_split \<lparr>splits_cache = [''Alice'' \<mapsto> 1 / 20], advances_cache = Map.empty\<rparr>
        (1 / 10) (PyStr ''Alice'') = Inr (1 / 100)
   \<and> dec_mul (1 / 10) (1 / 20) = 1 / 10 * (1 / 20)
   \<and> \<lfloor>\<bar>(1 / 10 :: rat) * (1 / 20)\<bar> * 1000\<rfloor> mod 10 = 5
   \<and> splits_cache \<lparr>splits_cache = [''Alice'' \<mapsto> 1], advances_cache = Map.empty\<rparr> ''Alice''
       = Some 1
   \<and> apply_split \<lparr>splits_cache = [''Alice'' \<mapsto> 1], advances_cache = Map.empty\<rparr>
        (10 ^ 26) (PyStr ''Alice'') = Inl InvalidOperation"
proof -
  let ?m = "\<lparr>splits_cache = [''Alice'' \<mapsto> 1 / 20 :: rat], advances_cache = Map.empty\<rparr>"
  have s: "splits_cache ?m ''Alice'' = Some (1 / 20)" by simp
  have n: "\<exists>n k. (1 / 10 :: rat) * (1 / 20) = of_int n * 10 powi k \<and> \<bar>n\<bar> < 10 ^ 28"
    by (rule exI [of _ 5], rule exI [of _ "- 3"]) (simp add: power_int_minus_divide)
  from apply_split_round_half_up [OF s, of "1 / 10"]
  obtain r where r: "apply_split ?m (1 / 10) (PyStr ''Alice'') =
           (if 10 ^ 26 \<le> \<bar>r\<bar> then Inl InvalidOperation else Inr r)"
    and pos: "0 \<le> dec_mul (1 / 10) (1 / 20) \<longrightarrow> 0 \<le> r"
    and a: "\<bar>r\<bar> = (if 5 \<le> \<lfloor>\<bar>dec_mul (1 / 10) (1 / 20)\<bar> * 1000\<rfloor> mod 10
              then of_int (\<lfloor>\<bar>dec_mul (1 / 10) (1 / 20)\<bar> * 100\<rfloor> + 1) / 100
              else of_int \<lfloor>\<bar>dec_mul (1 / 10) (1 / 20)\<bar> * 100\<rfloor> / 100)"
    and e: "(\<exists>n k. (1 / 10 :: rat) * (1 / 20) = of_int n * 10 powi k \<and> \<bar>n\<bar> < 10 ^ 28) \<longrightarrow>
           dec_mul (1 / 10) (1 / 20) = 1 / 10 * (1 / 20)"
    by blast
  from e n have x: "dec_mul (1 / 10) (1 / 20) = 1 / 10 * (1 / 20)" by blast
  have d: "\<lfloor>\<bar>(1 / 10 :: rat) * (1 / 20)\<bar> * 1000\<rfloor> mod 10 = 5" by code_simp
  have c: "of_int (\<lfloor>\<bar>(1 / 10 :: rat) * (1 / 20)\<bar> * 100\<rfloor> + 1) / 100 = (1 / 100 :: rat)" by code_simp
  from a have "\<bar>r\<bar> = 1 / 100" unfolding x d c by simp
  moreover from pos have "0 \<le> r" unfolding x by simp
  ultimately have "r = 1 / 100" by simp
  with r have v: "apply_split ?m (1 / 10) (PyStr ''Alice'') = Inr (1 / 100)" by simp
  let ?k = "\<lparr>splits_cache = [''Alice'' \<mapsto> 1 :: rat], advances_cache = Map.empty\<rparr>"
  have s': "splits_cache ?k ''Alice'' = Some 1" by simp
  have big: "(10 ^ 26 :: rat) \<le> \<bar>dec_mul (10 ^ 26) 1\<bar>" by code_simp
  from apply_split_round_half_up [OF s', of "10 ^ 26"]
  obtain r' where r': "apply_split ?k (10 ^ 26) (PyStr ''Alice'') =
           (if 10 ^ 26 \<le> \<bar>r'\<bar> then Inl InvalidOperation else Inr r')"
    and l: "10 ^ 26 \<le> \<bar>dec_mul (10 ^ 26) 1\<bar> \<longrightarrow> 10 ^ 26 \<le> \<bar>r'\<bar>"
    by blast
  from l big have "10 ^ 26 \<le> \<bar>r'\<bar>" by blast
  with r' have o: "apply_split ?k (10 ^ 26) (PyStr ''Alice'') = Inl InvalidOperation" by simp
  from s v x d s' o show ?thesis by blast
qed

theorem apply_split_round_half_up_counterexample:
  "apply_split \<lparr>splits_cache = [''Alice'' \<mapsto> 1], advances_cache = Map.empty\<rparr>
      (12345678901234567890123456785 / 1000) (PyStr ''Alice'')
     = Inr (1234567890123456789012345678 / 100)
   \<and> half_up_cents (12345678901234567890123456785 / 1000 * 1) = 1234567890123456789012345679 / 100
   \<and> apply_split \<lparr>splits_cache = [''Alice'' \<mapsto> 1], advances_cache = Map.empty\<rparr>
      (10 ^ 26) (PyStr ''Alice'') = Inl InvalidOperation"
  by code_simp

section \<open>Reconciliation, split verification and escalation\<close>

lemma reconcile_loop_eq:
  "reconcile_loop q actual_payouts calc ds =
     ds @ List.map_filter
            (\<lambda>p. case map_of actual_payouts (artist p) of
                   None \<Rightarrow> Some (Missing_actual (artist p) q (net_payout p))
                 | Some a \<Rightarrow>
                     if a \<noteq> net_payout p
                     then Some (Amount_mismatch (artist p) q (net_payout p) a
                                  (dec_sub a (net_payout p)))
                     else None) calc"
  by (induction calc arbitrary: ds) (simp_all split: option.split)

lemma verify_loop_eq:
  "verify_loop db cs ms =
     ms @ List.map_filter
            (\<lambda>c. case db (c_artist c) of
                   None \<Rightarrow> Some (Missing_in_db (c_artist c) (c_split_pct c))
                 | Some d \<Rightarrow>
                     if \<bar>float_sub d (c_split_pct c)\<bar> > float_literal (1 / 1000)
                     then Some (Mismatch (c_artist c) (c_split_pct c) d)
                     else None) cs"
  by (induction cs arbitrary: ms) (simp_all split: option.split)

lemma verify_missing:
  "filter (\<lambda>m. \<exists>a s. m = Missing_in_db a s) (verify_loop db cs []) =
     map (\<lambda>c. Missing_in_db (c_artist c) (c_split_pct c)) (filter (\<lambda>c. db (c_artist c) = None) cs)"
  unfolding verify_loop_eq by (induction cs) (auto split: option.split)

lemma verify_artists:
  "mismatch_artist ` set (verify_loop db cs []) \<subseteq> c_artist ` set cs"
  unfolding verify_loop_eq by (induction cs) (auto split: option.splits if_splits)


lemma starts_with_iff: "starts_with hay needle \<longleftrightarrow> (\<exists>post. hay = needle @ post)"
  by (induction hay needle rule: starts_with.induct) auto

lemma str_in_iff: "str_in needle hay \<longleftrightarrow> (\<exists>pre post. hay = pre @ needle @ post)"
proof (induction hay)
  case Nil
  then show ?case by auto
next
  case (Cons y ys)
  show ?case
  proof
    assume "str_in needle (y # ys)"
    then consider "starts_with (y # ys) needle" | "str_in needle ys" by auto
    then show "\<exists>pre post. y # ys = pre @ needle @ post"
    proof cases
      case 1
      then obtain post where "y # ys = needle @ post" by (auto simp: starts_with_iff)
      then have "y # ys = [] @ needle @ post" by simp
      then show ?thesis by blast
    next
      case 2
      then obtain pre post where "ys = pre @ needle @ post" using Cons.IH by blast
      then have "y # ys = (y # pre) @ needle @ post" by simp
      then show ?thesis by blast
    qed
  next
    assume "\<exists>pre post. y # ys = pre @ needle @ post"
    then obtain pre post where h: "y # ys = pre @ needle @ post" by blast
    show "str_in needle (y # ys)"
    proof (cases pre)
      case Nil
      with h have "starts_with (y # ys) needle" by (auto simp: starts_with_iff)
      then show ?thesis by simp
    next
      case (Cons z zs)
      with h have "ys = zs @ needle @ post" by simp
      then have "str_in needle ys" using Cons.IH by blast
      then show ?thesis by simp
    qed
  qed
qed

lemma escalate_loop_action:
  "escalation_action (fst (escalate_loop lower now self rules issue agent)) =
     (case find (\<lambda>rule. from_agent rule = agent \<and> str_in (condition rule) (lower issue)) rules of
        None \<Rightarrow> ''notify_admin''
      | Some rule \<Rightarrow> action rule)"
  by (induction rules) simp_all

text \<open>
  C5, as the code has it. With a non-empty actual map, \<open>reconcile\<close> returns, in the
  order of the computed payouts, exactly one \<open>missing_actual\<close> record for each payout
  whose artist has no entry in the actual map and exactly one \<open>amount_mismatch\<close> record,
  carrying the \<open>Decimal\<close> difference \<open>actual - net_payout\<close>, for each payout whose actual
  amount differs from its net payout (exact comparison); a payout whose actual amount equals
  its net payout gives no record, and every record is about the artist of a computed payout,
  so artists present only in the actual map give none. With an empty actual map, or none,
  \<open>reconcile\<close> returns no record at all: it returns early on
  \<open>not calculated or not actual_payouts\<close>. The \<open>Decimal\<close> difference of \<open>x\<close> and \<open>y\<close>
  is the exact \<open>x - y\<close> whenever that can be written with 28 significant digits, and
  \<open>x - y\<close> rounded to 28 digits otherwise.
\<close>

theorem reconcile_records:
  "reconcile q (Some calc) (Some actual_payouts) =
     (if actual_payouts = [] then []
      else List.map_filter
            (\<lambda>p. case map_of actual_payouts (artist p) of
                   None \<Rightarrow> Some (Missing_actual (artist p) q (net_payout p))
                 | Some a \<Rightarrow>
                     if a \<noteq> net_payout p
                     then Some (Amount_mismatch (artist p) q (net_payout p) a
                                  (dec_sub a (net_payout p)))
                     else None) calc)
   \<and> reconcile q None (Some actual_payouts) = []
   \<and> reconcile q (Some calc) None = []
   \<and> discrepancy_artist ` set (reconcile q (Some calc) (Some actual_payouts)) \<subseteq> artist ` set calc
   \<and> ((\<exists>n k. x - y = of_int n * 10 powi k \<and> \<bar>n\<bar> < 10 ^ 28) \<longrightarrow> dec_sub x y = x - y)"
proof -
  let ?f = "\<lambda>p. case map_of actual_payouts (artist p) of
                   None \<Rightarrow> Some (Missing_actual (artist p) q (net_payout p))
                 | Some a \<Rightarrow>
                     if a \<noteq> net_payout p
                     then Some (Amount_mismatch (artist p) q (net_payout p) a
                                  (dec_sub a (net_payout p)))
                     else None"
  have e: "reconcile q (Some calc) (Some actual_payouts) =
     (if actual_payouts = [] then [] else List.map_filter ?f calc)"
    by (simp add: reconcile_def reconcile_loop_eq)
  have "discrepancy_artist d \<in> artist ` set calc" if "d \<in> set (List.map_filter ?f calc)" for d
  proof -
    from that obtain p where p: "p \<in> set calc" and d: "?f p = Some d"
      by (auto simp: in_set_map_filter)
    from d have "discrepancy_artist d = artist p"
      by (auto split: option.splits if_splits)
    with p show ?thesis by blast
  qed
  then have s: "discrepancy_artist ` set (reconcile q (Some calc) (Some actual_payouts)) \<subseteq> artist ` set calc"
    unfolding e by auto
  have x: "(\<exists>n k. x - y = of_int n * 10 powi k \<and> \<bar>n\<bar> < 10 ^ 28) \<longrightarrow> dec_sub x y = x - y"
    using dec_round_exact by (auto simp: dec_sub_def)
  from e s x show ?thesis by (simp add: reconcile_def)
qed

theorem reconcile_records_witness:
  "reconcile ''Q4 2025''
     (Some (payouts (calculate scenario_builtins scenario_manager ''Q4 2025'' None (Some scenario_rows))))
     (Some [(''Bob'', 299), (''Carol'', 10)]) =
     [Missing_actual ''Alice'' ''Q4 2025'' 0, Amount_mismatch ''Bob'' ''Q4 2025'' 300 299 (- 1)]
   \<and> dec_sub 299 300 = 299 - 300"
proof -
  have 1: "reconcile ''Q4 2025''
     (Some (payouts (calculate scenario_builtins scenario_manager ''Q4 2025'' None (Some scenario_rows))))
     (Some [(''Bob'', 299), (''Carol'', 10)]) =
     [Missing_actual ''Alice'' ''Q4 2025'' 0, Amount_mismatch ''Bob'' ''Q4 2025'' 300 299 (- 1)]"
    unfolding reconcile_records [THEN conjunct1] scenario_payouts
    by code_simp
  have "\<exists>n k. (299 :: rat) - 300 = of_int n * 10 powi k \<and> \<bar>n\<bar> < 10 ^ 28"
    by (rule exI [of _ "- 1"], rule exI [of _ 0]) simp
  with reconcile_records [where x = 299 and y = 300] have "dec_sub 299 300 = 299 - 300" by blast
  with 1 show ?thesis by blast
qed

theorem reconcile_records_counterexample:
  "map_of ([] :: (string \<times> decimal) list) ''Alice'' = None
   \<and> map artist (payouts (calculate scenario_builtins scenario_manager ''Q4 2025'' None
        (Some scenario_rows))) = [''Alice'', ''Bob'']
   \<and> reconcile ''Q4 2025''
        (Some (payouts (calculate scenario_builtins scenario_manager ''Q4 2025'' None
           (Some scenario_rows))))
        (Some []) = []
   \<and> reconcile ''Q4 2025''
        (Some [\<lparr>artist = ''Alice'', quarter = ''Q4 2025'', gross_revenue = 2, split_pct = 1 / 2,
                artist_share = 1, advance_deducted = 0, net_payout = 1, tracks_count = 1,
                streams_count = 10\<rparr>])
        (Some [(''Alice'', 1 / 10 ^ 29)]) =
       [Amount_mismatch ''Alice'' ''Q4 2025'' 1 (1 / 10 ^ 29) (- 1)]"
proof -
  have "reconcile ''Q4 2025''
        (Some [\<lparr>artist = ''Alice'', quarter = ''Q4 2025'', gross_revenue = 2, split_pct = 1 / 2,
                artist_share = 1, advance_deducted = 0, net_payout = 1, tracks_count = 1,
                streams_count = 10\<rparr>])
        (Some [(''Alice'', 1 / 10 ^ 29)]) =
       [Amount_mismatch ''Alice'' ''Q4 2025'' 1 (1 / 10 ^ 29) (- 1)]"
    by code_simp
  then show ?thesis by (simp add: scenario_payouts reconcile_def)
qed

text \<open>
  C9. For every issue and source agent, \<open>escalate\<close> returns one action: the action of
  the first rule, in the order of the rule list, whose source agent equals the caller's agent
  and whose condition occurs as a substring of the lower-cased issue; when no rule matches,
  the action is \<open>notify_admin\<close>. \<open>str_in\<close> is the substring test.
\<close>

theorem escalate_first_match:
  "escalation_action (fst (escalate lower now self issue agent)) =
     (case find (\<lambda>rule. from_agent rule = agent \<and> str_in (condition rule) (lower issue))
             (escalation_rules self) of
        None \<Rightarrow> ''notify_admin''
      | Some rule \<Rightarrow> action rule)
   \<and> (str_in needle hay \<longleftrightarrow> (\<exists>pre post. hay = pre @ needle @ post))"
  by (simp add: escalate_def escalate_loop_action str_in_iff)

theorem escalate_first_match_witness:
  "escalation_action (fst (escalate ascii_lower ''2025-12-31T00:00:00'' default_director
      ''Split_Mismatch for Alice'' ''CONTRACT-MGR'')) = ''block''
   \<and> escalation_action (fst (escalate ascii_lower ''2025-12-31T00:00:00'' default_director
      ''Split_Mismatch for Alice'' ''DEVOPS-BOT'')) = ''notify_admin''"
proof -
  have 1: "(case find (\<lambda>rule. from_agent rule = ''CONTRACT-MGR''
                \<and> str_in (condition rule) (ascii_lower ''Split_Mismatch for Alice''))
             (escalation_rules default_director) of
        None \<Rightarrow> ''notify_admin'' | Some rule \<Rightarrow> action rule) = ''block''"
    by code_simp
  have 2: "(case find (\<lambda>rule. from_agent rule = ''DEVOPS-BOT''
                \<and> str_in (condition rule) (ascii_lower ''Split_Mismatch for Alice''))
             (escalation_rules default_director) of
        None \<Rightarrow> ''notify_admin'' | Some rule \<Rightarrow> action rule) = ''notify_admin''"
    by code_simp
  show ?thesis
    unfolding escalate_first_match [THEN conjunct1] 1 2 by simp
qed

text \<open>
  C4, as the code has it. \<open>verify_splits\<close> walks the contract registry: for every
  contract record whose artist is absent from the split map passed in (the engine's side),
  exactly one record of kind \<open>missing_in_db\<close> is emitted, carrying the contract's fraction,
  in registry order; every record is about an artist of the registry, so an artist present
  only in the engine's split map gives no record.
\<close>

theorem verify_splits_missing:
  "filter (\<lambda>m. \<exists>a s. m = Missing_in_db a s) (verify_splits self (Some db_splits)) =
     map (\<lambda>c. Missing_in_db (c_artist c) (c_split_pct c))
       (filter (\<lambda>c. db_splits (c_artist c) = None) (contracts self))
   \<and> mismatch_artist ` set (verify_splits self (Some db_splits)) \<subseteq> c_artist ` set (contracts self)"
  by (simp add: verify_splits_def verify_missing verify_artists)

theorem verify_splits_missing_counterexample:
  "verify_splits (scenario_contracts\<lparr>contracts := []\<rparr>) (Some [''Alice'' \<mapsto> float_literal (3 / 5)]) = []
   \<and> verify_splits scenario_contracts (Some [''Alice'' \<mapsto> float_literal (13 / 20)]) =
       [Missing_in_db ''Bob'' (float_literal (4 / 5))]"
  by code_simp

theorem verify_splits_missing_witness:
  "filter (\<lambda>m. \<exists>a s. m = Missing_in_db a s)
       (verify_splits scenario_contracts (Some [''Alice'' \<mapsto> float_literal (13 / 20), ''Carol'' \<mapsto> 1 / 2])) =
     [Missing_in_db ''Bob'' (float_literal (4 / 5))]"
  unfolding verify_splits_missing [THEN conjunct1]
  by (simp add: scenario_contracts_def)

lemma find_contract_assign:
  "find_contract cs a = Some c \<Longrightarrow>
   find_contract (assign_split cs a p) a = Some (c\<lparr>c_split_pct := p\<rparr>)"
  by (induction cs) (auto split: if_splits)

lemma assign_split_others:
  "filter (\<lambda>c. c_artist c \<noteq> a) (assign_split cs a p) = filter (\<lambda>c. c_artist c \<noteq> a) cs"
  by (induction cs) auto

lemma assign_split_artists: "map c_artist (assign_split cs a p) = map c_artist cs"
  by (induction cs) auto

text \<open>
  C3, as the code has it. \<open>RoyaltyManager.set_split\<close> and \<open>set_advance\<close> validate
  nothing: they store the given value for the artist, whatever its range or sign, never fail
  and touch nothing else (the royalty manager has no audit log). The validating update is
  \<open>ContractManager.update_split\<close>: a fraction outside \<open>[0, 1]\<close> fails with
  \<open>ContractError\<close>; an in-range fraction for an artist without a contract fails with
  \<open>ContractError\<close>; an in-range fraction for an artist with a contract replaces the
  fraction of the artist's first contract record, leaves the records of other artists as
  they were, and appends exactly one audit entry, with the old and the new fraction.
\<close>

theorem setters_and_update_split:
  "(\<exists>self'. set_split self a pct = Inr self' \<and> splits_cache self' = (splits_cache self)(a \<mapsto> pct)
       \<and> advances_cache self' = advances_cache self)
   \<and> (\<exists>self'. set_advance self a amount = Inr self'
       \<and> advances_cache self' = (advances_cache self)(a \<mapsto> amount)
       \<and> splits_cache self' = splits_cache self)
   \<and> (\<not> (0 \<le> new_pct \<and> new_pct \<le> 1) \<longrightarrow>
        update_split now cm a new_pct why = Inl (ContractError_invalid_split new_pct))
   \<and> (0 \<le> new_pct \<and> new_pct \<le> 1 \<and> find_contract (contracts cm) a = None \<longrightarrow>
        update_split now cm a new_pct why = Inl (ContractError_not_found a))
   \<and> (0 \<le> new_pct \<and> new_pct \<le> 1 \<and> find_contract (contracts cm) a = Some c \<longrightarrow>
        (\<exists>entry cm'. update_split now cm a new_pct why = Inr (entry, cm')
           \<and> audit_log cm' = audit_log cm @ [entry]
           \<and> audit_artist entry = a \<and> old_split entry = c_split_pct c \<and> new_split entry = new_pct
           \<and> find_contract (contracts cm') a = Some (c\<lparr>c_split_pct := new_pct\<rparr>)
           \<and> filter (\<lambda>c. c_artist c \<noteq> a) (contracts cm') = filter (\<lambda>c. c_artist c \<noteq> a) (contracts cm)
           \<and> map c_artist (contracts cm') = map c_artist (contracts cm)))"
  by (simp add: set_split_def set_advance_def update_split_def Let_def
      find_contract_assign assign_split_others assign_split_artists)

theorem setters_and_update_split_counterexample:
  "(case set_split scenario_manager ''Alice'' (3 / 2) of
      Inl err \<Rightarrow> False | Inr self' \<Rightarrow> splits_cache self' ''Alice'' = Some (3 / 2))
   \<and> (case set_advance scenario_manager ''Alice'' (- 100) of
      Inl err \<Rightarrow> False | Inr self' \<Rightarrow> advances_cache self' ''Alice'' = Some (- 100))"
  by (simp add: set_split_def set_advance_def)

theorem setters_and_update_split_witness:
  "update_split ''2025-12-31T00:00:00'' scenario_contracts ''Alice'' (3 / 2) ''renegotiated'' =
     Inl (ContractError_invalid_split (3 / 2))
   \<and> update_split ''2025-12-31T00:00:00'' scenario_contracts ''Carol'' (1 / 2) ''renegotiated'' =
     Inl (ContractError_not_found ''Carol'')
   \<and> (\<exists>entry cm'. update_split ''2025-12-31T00:00:00'' scenario_contracts ''Bob'' (1 / 2) ''renegotiated''
         = Inr (entry, cm')
       \<and> audit_log cm' = [entry] \<and> old_split entry = float_literal (4 / 5) \<and> new_split entry = 1 / 2)"
proof -
  have 1: "update_split ''2025-12-31T00:00:00'' scenario_contracts ''Alice'' (3 / 2) ''renegotiated'' =
     Inl (ContractError_invalid_split (3 / 2))"
    using setters_and_update_split [where new_pct = "3 / 2" and now = "''2025-12-31T00:00:00''"
      and cm = scenario_contracts and a = "''Alice''" and why = "''renegotiated''",
      THEN conjunct2, THEN conjunct2, THEN conjunct1]
    by simp
  have n: "find_contract (contracts scenario_contracts) ''Carol'' = None"
    by (simp add: scenario_contracts_def)
  have 2: "update_split ''2025-12-31T00:00:00'' scenario_contracts ''Carol'' (1 / 2) ''renegotiated'' =
     Inl (ContractError_not_found ''Carol'')"
    using setters_and_update_split [where new_pct = "1 / 2" and now = "''2025-12-31T00:00:00''"
      and cm = scenario_contracts and a = "''Carol''" and why = "''renegotiated''",
      THEN conjunct2, THEN conjunct2, THEN conjunct2, THEN conjunct1] n
    by simp
  have f: "find_contract (contracts scenario_contracts) ''Bob'' =
      Some \<lparr>c_artist = ''Bob'', c_split_pct = float_literal (4 / 5), signed_date = None,
          expiry_date = None, file_path = None, file_type = ''pdf'', status = ''active'',
          contract_notes = ''''\<rparr>"
    by (simp add: scenario_contracts_def)
  have a: "audit_log scenario_contracts = []" by (simp add: scenario_contracts_def)
  have 3: "\<exists>entry cm'. update_split ''2025-12-31T00:00:00'' scenario_contracts ''Bob'' (1 / 2) ''renegotiated''
         = Inr (entry, cm')
       \<and> audit_log cm' = [entry] \<and> old_split entry = float_literal (4 / 5) \<and> new_split entry = 1 / 2"
    using setters_and_update_split [where new_pct = "1 / 2" and now = "''2025-12-31T00:00:00''"
      and cm = scenario_contracts and a = "''Bob''" and why = "''renegotiated''" and c =
      "\<lparr>c_artist = ''Bob'', c_split_pct = float_literal (4 / 5), signed_date = None,
          expiry_date = None, file_path = None, file_type = ''pdf'', status = ''active'',
          contract_notes = ''''\<rparr>",
      THEN conjunct2, THEN conjunct2, THEN conjunct2, THEN conjunct2] f
    unfolding a by (simp del: ex_simps) blast
  from 1 2 3 show ?thesis by blast
qed














text \<open>The floats of the fractions \<open>0.6\<close> and \<open>0.65\<close>, and their float difference.\<close>

lemma float_literal_fractions:
  "float_literal (3 / 5) = 5404319552844595 / 2 ^ 53"
  "float_literal (13 / 20) = 5854679515581645 / 2 ^ 53"
  "float_sub (float_literal (3 / 5)) (float_literal (13 / 20)) = - (225179981368525 / 2 ^ 52)"
  by code_simp+






end
